theory Spec2Isabelle
  imports Complex_Main "HOL-Library.Char_ord" "HOL-Library.List_Lexorder"
    "HOL-Library.Multiset"
begin

section \<open>Numbers\<close>

text \<open>
  The program computes on pandas columns of 64-bit floats. A value read from the input
  table is a finite number or missing (pandas' NaN), modelled as \<open>real option\<close> with
  \<open>None\<close> for NaN. A computed value can also be infinite, so results of the minutes
  multiplier and everything after it are of type \<open>fl\<close>. Arithmetic on \<open>fl\<close> follows
  IEEE 754 in its special cases (NaN propagates, \<open>0 / 0\<close> and \<open>inf - inf\<close> are NaN,
  \<open>x / 0\<close> is infinite); on finite values it is exact real arithmetic: rounding,
  overflow and the sign of zero are not modelled.
\<close>

datatype fl = F real | PInf | NInf | NaN

fun fneg :: "fl \<Rightarrow> fl" where
  "fneg (F a) = F (- a)"
| "fneg PInf = NInf"
| "fneg NInf = PInf"
| "fneg NaN = NaN"

fun fadd :: "fl \<Rightarrow> fl \<Rightarrow> fl" where
  "fadd (F a) (F b) = F (a + b)"
| "fadd (F a) PInf = PInf"
| "fadd (F a) NInf = NInf"
| "fadd PInf (F b) = PInf"
| "fadd NInf (F b) = NInf"
| "fadd PInf PInf = PInf"
| "fadd NInf NInf = NInf"
| "fadd PInf NInf = NaN"
| "fadd NInf PInf = NaN"
| "fadd NaN y = NaN"
| "fadd x NaN = NaN"

definition fsub :: "fl \<Rightarrow> fl \<Rightarrow> fl" where
  "fsub x y = fadd x (fneg y)"

text \<open>An infinity times a finite factor: NaN at zero, else the sign decides.\<close>

definition inf_times :: "bool \<Rightarrow> real \<Rightarrow> fl" where
  "inf_times pos a =
     (if a = 0 then NaN else if (0 < a) = pos then PInf else NInf)"

fun fmul :: "fl \<Rightarrow> fl \<Rightarrow> fl" where
  "fmul (F a) (F b) = F (a * b)"
| "fmul (F a) PInf = inf_times True a"
| "fmul (F a) NInf = inf_times False a"
| "fmul PInf (F b) = inf_times True b"
| "fmul NInf (F b) = inf_times False b"
| "fmul PInf PInf = PInf"
| "fmul NInf NInf = PInf"
| "fmul PInf NInf = NInf"
| "fmul NInf PInf = NInf"
| "fmul NaN y = NaN"
| "fmul x NaN = NaN"

fun fdiv :: "fl \<Rightarrow> fl \<Rightarrow> fl" where
  "fdiv (F a) (F b) =
     (if b = 0 then (if a = 0 then NaN else if 0 < a then PInf else NInf)
      else F (a / b))"
| "fdiv (F a) PInf = F 0"
| "fdiv (F a) NInf = F 0"
| "fdiv PInf (F b) = (if 0 \<le> b then PInf else NInf)"
| "fdiv NInf (F b) = (if 0 \<le> b then NInf else PInf)"
| "fdiv PInf PInf = NaN"
| "fdiv PInf NInf = NaN"
| "fdiv NInf PInf = NaN"
| "fdiv NInf NInf = NaN"
| "fdiv NaN y = NaN"
| "fdiv x NaN = NaN"

text \<open>\<open>np.log1p\<close>: the logarithm of \<open>1 + x\<close>, minus infinity at \<open>-1\<close>, NaN below.\<close>

fun log1p :: "fl \<Rightarrow> fl" where
  "log1p (F x) = (if - 1 < x then F (ln (1 + x)) else if x = - 1 then NInf else NaN)"
| "log1p PInf = PInf"
| "log1p NInf = NaN"
| "log1p NaN = NaN"

text \<open>\<open>ratio ** 2.0\<close>, the only power the program uses.\<close>

fun fsquare :: "fl \<Rightarrow> fl" where
  "fsquare (F a) = F (a * a)"
| "fsquare PInf = PInf"
| "fsquare NInf = PInf"
| "fsquare NaN = NaN"

fun fsqrt :: "fl \<Rightarrow> fl" where
  "fsqrt (F a) = (if 0 \<le> a then F (sqrt a) else NaN)"
| "fsqrt PInf = PInf"
| "fsqrt NInf = NaN"
| "fsqrt NaN = NaN"

definition fsum :: "fl list \<Rightarrow> fl" where
  "fsum xs = foldr fadd xs (F 0)"

text \<open>
  \<open>Series.mean()\<close> and \<open>Series.std(ddof=0)\<close> skip NaN entries; over no entry at all
  both are NaN. The standard deviation divides by the number of entries (\<open>ddof=0\<close>).
\<close>

definition not_nan :: "fl \<Rightarrow> bool" where
  "not_nan x = (x \<noteq> NaN)"

definition pd_mean :: "fl list \<Rightarrow> fl" where
  "pd_mean values =
     (let vs = filter not_nan values
      in if vs = [] then NaN else fdiv (fsum vs) (F (real (length vs))))"

definition pd_std0 :: "fl list \<Rightarrow> fl" where
  "pd_std0 values =
     (let vs = filter not_nan values
      in if vs = [] then NaN
         else let avg = fdiv (fsum vs) (F (real (length vs)));
                  sqr = map (\<lambda>v. fsquare (fsub avg v)) vs
              in fsqrt (fdiv (fsum sqr) (F (real (length vs)))))"

definition zscore :: "fl list \<Rightarrow> fl list" where
  "zscore values =
     (let mu = pd_mean values; sigma = pd_std0 values
      in if sigma = F 0 \<or> sigma = NaN then map (\<lambda>_. F 0) values
         else map (\<lambda>v. fdiv (fsub v mu) sigma) values)"

definition minutes_multiplier :: "fl \<Rightarrow> fl \<Rightarrow> fl" where
  "minutes_multiplier minutes reference =
     (let log_min = log1p minutes; log_ref = log1p reference;
          ratio = fdiv log_min log_ref
      in fsquare ratio)"

section \<open>Tables\<close>

text \<open>
  A DataFrame is its list of column names and its rows. A row gives the statistic
  columns as numbers (\<open>None\<close> is a missing value) and every other column (player,
  match, season, team, name, position) as a string (\<open>None\<close> is missing). A row is only
  read at columns of the frame.
\<close>

record row =
  num :: "string \<Rightarrow> real option"
  idv :: "string \<Rightarrow> string option"

record frame =
  columns :: "string list"
  rows :: "row list"

datatype error = ValueError string | KeyError string | ZeroDivisionError

record PeleWeights =
  w_g :: real
  w_pk :: real
  w_a :: real
  w_xg :: real
  w_xa :: real
  w_kp :: real
  w_prog :: real
  w_drib :: real
  w_to :: real
  w_shot :: real
  w_sot :: real
  w_pass_pct :: real
  w_final_third :: real
  w_prog_rec :: real
  w_ti :: real
  w_blk :: real
  w_air :: real
  w_tkl_def :: real
  w_tkl_mid :: real
  w_tkl_att :: real

definition default_weights :: PeleWeights where
  "default_weights =
     \<lparr> w_g = 1.20, w_pk = 0.30, w_a = 0.80, w_xg = 0.50, w_xa = 0.40, w_kp = 0.20,
       w_prog = 0.08, w_drib = 0.06, w_to = 0.10, w_shot = 0.03, w_sot = 0.05,
       w_pass_pct = 0.02, w_final_third = 0.04, w_prog_rec = 0.05,
       w_ti = 0.12, w_blk = 0.08, w_air = 0.05,
       w_tkl_def = 0.04, w_tkl_mid = 0.02, w_tkl_att = 0.01 \<rparr>"

text \<open>\<open>_safe\<close>: \<open>fillna(0.0)\<close>.\<close>

definition safe :: "real option \<Rightarrow> real" where
  "safe x = (case x of None \<Rightarrow> 0 | Some v \<Rightarrow> v)"

text \<open>
  \<open>_per90\<close>: zero minutes are replaced by NaN before the division, so the rate of a
  row with zero or missing minutes is NaN.
\<close>

definition per90 :: "row \<Rightarrow> string \<Rightarrow> real option" where
  "per90 r col =
     (let minutes = (case num r ''minutes'' of
                       None \<Rightarrow> None
                     | Some m \<Rightarrow> if m = 0 then None else Some m)
      in case minutes of
           None \<Rightarrow> None
         | Some m \<Rightarrow> Some (safe (num r col) / (m / 90)))"

definition required :: "string list" where
  "required =
     [''player_id'', ''match_id'', ''minutes'', ''np_goals'', ''penalty_goals'',
      ''assists'', ''xg'', ''xa'', ''key_passes'', ''progressive_passes'',
      ''progressive_carries'', ''successful_dribbles'', ''turnovers'', ''tackles'',
      ''interceptions'', ''blocks'', ''aerials_won'', ''shots'', ''shots_on_target'',
      ''pass_completion_pct'', ''passes_into_final_third'', ''progressive_receives'',
      ''tackles_def_third'', ''tackles_mid_third'', ''tackles_att_third'',
      ''dribble_success_pct'']"

definition validate :: "frame \<Rightarrow> error + unit" where
  "validate df =
     (case find (\<lambda>col. col \<notin> set (columns df)) required of
        Some col \<Rightarrow> Inl (ValueError (''Missing required column: '' @ col))
      | None \<Rightarrow> Inr ())"

text \<open>The statistics that get a per-90 column, in the order of the \<open>rates\<close> dictionary.\<close>

definition rate_cols :: "string list" where
  "rate_cols =
     [''np_goals'', ''penalty_goals'', ''assists'', ''xg'', ''xa'', ''key_passes'',
      ''progressive_passes'', ''progressive_carries'', ''successful_dribbles'',
      ''turnovers'', ''tackles'', ''interceptions'', ''blocks'', ''aerials_won'',
      ''shots'', ''shots_on_target'', ''passes_into_final_third'',
      ''progressive_receives'', ''tackles_def_third'', ''tackles_mid_third'',
      ''tackles_att_third'']"

text \<open>A cell of \<open>rates_df\<close>: the per-90 rate after \<open>fillna(0.0)\<close>.\<close>

definition rate :: "row \<Rightarrow> string \<Rightarrow> real" where
  "rate r col = safe (per90 r col)"

definition rates_df :: "row \<Rightarrow> (string \<times> real) list" where
  "rates_df r = map (\<lambda>col. (col @ ''_p90'', rate r col)) rate_cols"

definition offensive_component :: "PeleWeights \<Rightarrow> row \<Rightarrow> real" where
  "offensive_component weights r =
     w_g weights * rate r ''np_goals''
     + w_pk weights * rate r ''penalty_goals''
     + w_a weights * rate r ''assists''
     + w_xg weights * (rate r ''xg'' - rate r ''np_goals'')
     + w_xa weights * (rate r ''xa'' - rate r ''assists'')
     + w_kp weights * rate r ''key_passes''
     + w_prog weights * (rate r ''progressive_passes''
                         + 0.7 * rate r ''progressive_carries'')
     + w_drib weights * rate r ''successful_dribbles''
     - w_to weights * rate r ''turnovers''
     + w_shot weights * rate r ''shots''
     + w_sot weights * rate r ''shots_on_target''
     + w_pass_pct weights * (safe (num r ''pass_completion_pct'') / 100)
     + w_final_third weights * rate r ''passes_into_final_third''
     + w_prog_rec weights * rate r ''progressive_receives''
     + w_drib weights * (safe (num r ''dribble_success_pct'') / 100)"

definition defensive_component :: "PeleWeights \<Rightarrow> row \<Rightarrow> real" where
  "defensive_component weights r =
     w_ti weights * (rate r ''tackles'' + rate r ''interceptions'')
     + w_blk weights * rate r ''blocks''
     + w_air weights * rate r ''aerials_won''
     + w_tkl_def weights * rate r ''tackles_def_third''
     + w_tkl_mid weights * rate r ''tackles_mid_third''
     + w_tkl_att weights * rate r ''tackles_att_third''"

text \<open>\<open>_safe(df["minutes"]).mean()\<close>: the mean of no row is NaN.\<close>

definition avg_minutes :: "row list \<Rightarrow> fl" where
  "avg_minutes rs =
     (if rs = [] then NaN
      else F (sum_list (map (\<lambda>r. safe (num r ''minutes'')) rs) / real (length rs)))"

text \<open>
  A row of the returned table: the identity columns, the per-90 columns, the scores, and
  \<open>pele_100\<close> when the table was standardized.
\<close>

record out_row =
  ident :: "(string \<times> string option) list"
  rates :: "(string \<times> real) list"
  oc :: real
  dc :: real
  base_score :: real
  min_mult :: fl
  pele_raw :: fl
  pele_100 :: "fl option"

definition identity_cols :: "frame \<Rightarrow> string list" where
  "identity_cols df =
     (let ics = filter (\<lambda>c. c \<in> set (columns df))
                  [''player_id'', ''player_name'', ''season'', ''team_id'']
      in if ics = [] then [''player_id''] else ics)"

definition score_row :: "PeleWeights \<Rightarrow> fl \<Rightarrow> string list \<Rightarrow> row \<Rightarrow> out_row" where
  "score_row weights reference ics r =
     (let ocv = offensive_component weights r;
          dcv = defensive_component weights r;
          mm = minutes_multiplier (F (safe (num r ''minutes''))) reference
      in \<lparr> ident = map (\<lambda>c. (c, idv r c)) ics,
           rates = rates_df r,
           oc = ocv, dc = dcv, base_score = ocv + dcv,
           min_mult = mm,
           pele_raw = fmul (F (ocv + dcv)) mm,
           pele_100 = None \<rparr>)"

text \<open>
  The body of \<open>compute_pele\<close> up to the table \<open>out\<close>: the check of the required
  columns, then one scored row for each input row, in input order.
\<close>

definition row_level :: "PeleWeights \<Rightarrow> frame \<Rightarrow> error + out_row list" where
  "row_level weights df =
     (case validate df of
        Inl e \<Rightarrow> Inl e
      | Inr _ \<Rightarrow>
          Inr (map (score_row weights (avg_minutes (rows df)) (identity_cols df))
                 (rows df)))"

text \<open>\<open>t["pele_100"] = 50.0 + 10.0 * _zscore(t["pele_raw"])\<close>.\<close>

definition add_pele_100 :: "out_row list \<Rightarrow> out_row list" where
  "add_pele_100 t =
     map (\<lambda>(r, z). r\<lparr>pele_100 := Some (fadd (F 50) (fmul (F 10) z))\<rparr>)
       (zip t (zscore (map pele_raw t)))"

section \<open>Aggregation\<close>

definition agg_cols :: "string list" where
  "agg_cols =
     [''minutes'', ''np_goals'', ''penalty_goals'', ''assists'', ''xg'', ''xa'',
      ''key_passes'', ''progressive_passes'', ''progressive_carries'',
      ''successful_dribbles'', ''turnovers'', ''tackles'', ''interceptions'', ''blocks'',
      ''aerials_won'', ''shots'', ''shots_on_target'', ''passes_into_final_third'',
      ''progressive_receives'', ''tackles_def_third'', ''tackles_mid_third'',
      ''tackles_att_third'', ''dribble_attempts'']"

definition pct_cols :: "string list" where
  "pct_cols = [''pass_completion_pct'', ''dribble_success_pct'']"

text \<open>The key of a row under \<open>groupby(group_cols, dropna=False)\<close>: missing values are kept.\<close>

definition key_of :: "string list \<Rightarrow> row \<Rightarrow> string option list" where
  "key_of group_cols r = map (idv r) group_cols"

text \<open>
  \<open>groupby\<close> yields its groups in ascending order of the key, a missing value after
  every string.
\<close>

fun cell_le :: "string option \<Rightarrow> string option \<Rightarrow> bool" where
  "cell_le (Some a) (Some b) = (a \<le> b)"
| "cell_le (Some a) None = True"
| "cell_le None (Some b) = False"
| "cell_le None None = True"

fun key_le :: "string option list \<Rightarrow> string option list \<Rightarrow> bool" where
  "key_le [] ys = True"
| "key_le (x # xs) [] = False"
| "key_le (x # xs) (y # ys) = (if x = y then key_le xs ys else cell_le x y)"

fun insert_key :: "string option list \<Rightarrow> string option list list \<Rightarrow> string option list list" where
  "insert_key k [] = [k]"
| "insert_key k (x # xs) = (if key_le k x then k # x # xs else x # insert_key k xs)"

definition sort_keys :: "string option list list \<Rightarrow> string option list list" where
  "sort_keys ks = foldr insert_key ks []"

definition group_keys :: "string list \<Rightarrow> row list \<Rightarrow> string option list list" where
  "group_keys group_cols rs = sort_keys (remdups (map (key_of group_cols) rs))"

definition group_rows :: "string list \<Rightarrow> row list \<Rightarrow> string option list \<Rightarrow> row list" where
  "group_rows group_cols rs k = filter (\<lambda>r. key_of group_cols r = k) rs"

text \<open>The \<open>"sum"\<close> aggregation skips missing values; the sum of none is 0.\<close>

definition agg_sum :: "row list \<Rightarrow> string \<Rightarrow> real" where
  "agg_sum grp col = sum_list (map (\<lambda>r. safe (num r col)) grp)"

text \<open>
  The aggregation of a percentage column:
  \<open>np.average(x, weights=sum_df.loc[x.index, "minutes"].replace(0, 1))\<close>.
  \<open>np.average\<close> raises when the weights sum to zero; a missing weight or a missing value
  makes the average NaN.
\<close>

definition avg_weight :: "row \<Rightarrow> real option" where
  "avg_weight r =
     (case num r ''minutes'' of None \<Rightarrow> None | Some m \<Rightarrow> Some (if m = 0 then 1 else m))"

definition np_average :: "row list \<Rightarrow> string \<Rightarrow> error + real option" where
  "np_average grp col =
     (case those (map avg_weight grp) of
        None \<Rightarrow> Inr None
      | Some wgt \<Rightarrow>
          if sum_list wgt = 0 then Inl ZeroDivisionError
          else (case those (map (\<lambda>r. num r col) grp) of
                  None \<Rightarrow> Inr None
                | Some a \<Rightarrow> Inr (Some (sum_list (map (\<lambda>(x, w). x * w) (zip a wgt)) / sum_list wgt))))"

text \<open>
  \<open>lambda x: x.mode().iat[0] if len(x.mode()) else x.iloc[0]\<close>: \<open>mode()\<close> drops the
  missing values and returns the most frequent ones in ascending order.
\<close>

fun least :: "string list \<Rightarrow> string option" where
  "least [] = None"
| "least (x # xs) = (case least xs of None \<Rightarrow> Some x | Some y \<Rightarrow> Some (min x y))"

definition pd_mode :: "string option list \<Rightarrow> string list" where
  "pd_mode xs =
     (let vs = List.map_filter (\<lambda>x. x) xs;
          top = fold max (map (count_list vs) vs) 0
      in filter (\<lambda>v. count_list vs v = top) vs)"

definition name_agg :: "string option list \<Rightarrow> string option" where
  "name_agg xs =
     (case least (pd_mode xs) of
        Some m \<Rightarrow> Some m
      | None \<Rightarrow> (case xs of [] \<Rightarrow> None | x # _ \<Rightarrow> x))"

text \<open>The first error of a list of results, or all the values.\<close>

fun collect :: "(error + 'a) list \<Rightarrow> error + 'a list" where
  "collect [] = Inr []"
| "collect (Inl e # xs) = Inl e"
| "collect (Inr v # xs) = (case collect xs of Inl e \<Rightarrow> Inl e | Inr vs \<Rightarrow> Inr (v # vs))"

definition flat_lookup :: "('a \<times> 'b option) list \<Rightarrow> 'a \<Rightarrow> 'b option" where
  "flat_lookup kvs c = (case map_of kvs c of None \<Rightarrow> None | Some v \<Rightarrow> v)"

text \<open>
  One row of \<open>rep\<close>: the group's key, the sums, the weighted averages, the name
  (when the frame has a \<open>player_name\<close> column outside the key) and the constant
  \<open>match_id\<close>.
\<close>

definition rep_row ::
  "string list \<Rightarrow> string list \<Rightarrow> string list \<Rightarrow> bool \<Rightarrow> row list \<Rightarrow> string option list
     \<Rightarrow> error + row" where
  "rep_row group_cols present present_pct with_name rs k =
     (let grp = group_rows group_cols rs k
      in case collect (map (np_average grp) present_pct) of
           Inl e \<Rightarrow> Inl e
         | Inr avgs \<Rightarrow>
             Inr \<lparr> num = (\<lambda>c. if c \<in> set present then Some (agg_sum grp c)
                                else flat_lookup (zip present_pct avgs) c),
                   idv = (\<lambda>c. if c = ''match_id'' then Some ''__aggregate__''
                                else if c = ''player_name'' \<and> with_name
                                then name_agg (map (\<lambda>r. idv r ''player_name'') grp)
                                else flat_lookup (zip group_cols k) c) \<rparr>)"

text \<open>
  The columns the grouped branch works on: \<open>present\<close>, \<open>present_pct\<close>,
  \<open>extra_cols\<close>, and the columns of \<open>sum_df\<close>,
  \<open>group_cols + present + present_pct + extra_cols\<close>.
\<close>

definition present :: "frame \<Rightarrow> string list" where
  "present df = filter (\<lambda>c. c \<in> set (columns df)) agg_cols"

definition present_pct :: "frame \<Rightarrow> string list" where
  "present_pct df = filter (\<lambda>c. c \<in> set (columns df)) pct_cols"

definition extra_cols :: "frame \<Rightarrow> string list" where
  "extra_cols df = (if ''player_name'' \<in> set (columns df) then [''player_name''] else [])"

definition sum_df_cols :: "frame \<Rightarrow> string list \<Rightarrow> string list" where
  "sum_df_cols df group_cols = group_cols @ present df @ present_pct df @ extra_cols df"

text \<open>\<open>"player_name" in sum_df.columns and "player_name" not in group_cols\<close>.\<close>

definition with_name :: "frame \<Rightarrow> string list \<Rightarrow> bool" where
  "with_name df group_cols =
     (''player_name'' \<in> set (sum_df_cols df group_cols) \<and> ''player_name'' \<notin> set group_cols)"

definition rep_columns :: "frame \<Rightarrow> string list \<Rightarrow> string list" where
  "rep_columns df group_cols =
     group_cols @ present df @ present_pct df
     @ (if with_name df group_cols then [''player_name''] else [])
     @ (if ''match_id'' \<in> set group_cols then [] else [''match_id''])"

text \<open>
  The frame \<open>rep\<close> of the grouped branch. Selecting a group column the frame does not
  have raises \<open>KeyError\<close>; a group column that occurs twice among the columns of
  \<open>sum_df\<close> makes \<open>groupby\<close> raise \<open>ValueError\<close>.
\<close>

definition aggregate :: "frame \<Rightarrow> string list \<Rightarrow> error + frame" where
  "aggregate df group_cols =
     (case find (\<lambda>c. c \<notin> set (columns df)) group_cols of
        Some c \<Rightarrow> Inl (KeyError c)
      | None \<Rightarrow>
          (case find (\<lambda>c. 1 < count_list (sum_df_cols df group_cols) c) group_cols of
             Some c \<Rightarrow> Inl (ValueError (''Grouper for '' @ c @ '' not 1-dimensional''))
           | None \<Rightarrow>
               (case collect (map (rep_row group_cols (present df) (present_pct df)
                                     (with_name df group_cols) (rows df))
                                (group_keys group_cols (rows df))) of
                  Inl e \<Rightarrow> Inl e
                | Inr rrs \<Rightarrow> Inr \<lparr> columns = rep_columns df group_cols, rows = rrs \<rparr>)))"

text \<open>
  \<open>tmp[group_cols + [...]]\<close>: the scores and the per-90 columns of \<open>tmp\<close> under the
  group columns. \<open>tmp\<close> has the identity columns of \<open>rep\<close> only, so any other group
  column raises \<open>KeyError\<close>. (A group column named like a score or per-90 column of the
  output itself is not modelled apart: it is treated as any other.)
\<close>

definition select_result :: "string list \<Rightarrow> string list \<Rightarrow> out_row list \<Rightarrow> error + out_row list" where
  "select_result group_cols tmp_cols tmp =
     (case find (\<lambda>c. c \<notin> set tmp_cols) group_cols of
        Some c \<Rightarrow> Inl (KeyError c)
      | None \<Rightarrow>
          Inr (map (\<lambda>t. t\<lparr>ident := map (\<lambda>c. (c, flat_lookup (ident t) c)) group_cols\<rparr>) tmp))"

text \<open>
  \<open>names\<close>: per group key the \<open>player_name\<close> of the first input row that has one
  (\<open>dropna\<close>, then \<open>drop_duplicates\<close>), joined to \<open>result\<close> by a left merge.
\<close>

definition first_name :: "string list \<Rightarrow> row list \<Rightarrow> string option list \<Rightarrow> string option" where
  "first_name group_cols rs k =
     (case find (\<lambda>r. key_of group_cols r = k \<and> idv r ''player_name'' \<noteq> None) rs of
        None \<Rightarrow> None
      | Some r \<Rightarrow> idv r ''player_name'')"

definition merge_names :: "string list \<Rightarrow> row list \<Rightarrow> out_row list \<Rightarrow> out_row list" where
  "merge_names group_cols rs result =
     map (\<lambda>t. t\<lparr>ident := ident t
                  @ [(''player_name'', first_name group_cols rs (map snd (ident t)))]\<rparr>)
       result"

text \<open>
  \<open>sort_values(by=["pele_raw"], ascending=False, ignore_index=True)\<close>: descending, the
  rows whose \<open>pele_raw\<close> is NaN last. The order pandas gives to rows of equal
  \<open>pele_raw\<close> is that of its default sorting algorithm; here they keep their order.
\<close>

definition fl_le :: "fl \<Rightarrow> fl \<Rightarrow> bool" where
  "fl_le x y =
     (case x of
        F a \<Rightarrow> (case y of F b \<Rightarrow> a \<le> b | PInf \<Rightarrow> True | _ \<Rightarrow> False)
      | NInf \<Rightarrow> (y \<noteq> NaN)
      | PInf \<Rightarrow> (y = PInf)
      | NaN \<Rightarrow> False)"

fun insert_desc :: "out_row \<Rightarrow> out_row list \<Rightarrow> out_row list" where
  "insert_desc x [] = [x]"
| "insert_desc x (y # ys) =
     (if fl_le (pele_raw y) (pele_raw x) then x # y # ys else y # insert_desc x ys)"

definition sort_values :: "out_row list \<Rightarrow> out_row list" where
  "sort_values t =
     foldr insert_desc (filter (\<lambda>r. pele_raw r \<noteq> NaN) t) []
     @ filter (\<lambda>r. pele_raw r = NaN) t"

section \<open>compute_pele\<close>

text \<open>
  The grouped branch: \<open>rep\<close>, the recursive call on it without grouping and without
  standardization, the selection, the names, \<open>pele_100\<close> and the sort.
\<close>

definition grouped ::
  "PeleWeights \<Rightarrow> frame \<Rightarrow> string list \<Rightarrow> bool \<Rightarrow> error + out_row list" where
  "grouped weights df group_cols standardize =
     (case aggregate df group_cols of
        Inl e \<Rightarrow> Inl e
      | Inr rep \<Rightarrow>
          (case row_level weights rep of
             Inl e \<Rightarrow> Inl e
           | Inr tmp \<Rightarrow>
               (case select_result group_cols (identity_cols rep) tmp of
                  Inl e \<Rightarrow> Inl e
                | Inr result \<Rightarrow>
                    (let named = (if ''player_name'' \<in> set (columns df)
                                     \<and> ''player_name'' \<notin> set group_cols
                                  then merge_names group_cols (rows df) result else result);
                         scored = (if standardize then add_pele_100 named else named)
                     in Inr (sort_values scored)))))"

text \<open>
  \<open>group_by\<close> is \<open>None\<close> or a list of column names; an empty list is falsy and gives
  the row-level table, as \<open>None\<close> does. \<open>weights\<close> is \<open>None\<close> for the default weights.
\<close>

definition compute_pele ::
  "frame \<Rightarrow> string list option \<Rightarrow> bool \<Rightarrow> PeleWeights option \<Rightarrow> error + out_row list" where
  "compute_pele df group_by standardize weights =
     (let w = (case weights of None \<Rightarrow> default_weights | Some ws \<Rightarrow> ws)
      in case row_level w df of
           Inl e \<Rightarrow> Inl e
         | Inr out \<Rightarrow>
             (case group_by of
                Some (g # gs) \<Rightarrow> grouped w df (g # gs) standardize
              | _ \<Rightarrow> Inr (if standardize then add_pele_100 out else out)))"

section \<open>Example tables\<close>

definition mk_row :: "(string \<times> real) list \<Rightarrow> (string \<times> string) list \<Rightarrow> row" where
  "mk_row ns ss = \<lparr> num = map_of ns, idv = map_of ss \<rparr>"

text \<open>One player, one match, no minute played, 80 percent of the passes completed.\<close>

definition df_idle :: frame where
  "df_idle =
     \<lparr> columns = required,
       rows = [mk_row [(''minutes'', 0), (''pass_completion_pct'', 80)]
                 [(''player_id'', ''P1''), (''match_id'', ''M1'')]] \<rparr>"

text \<open>One match of 90 minutes with a goal; the same match beside an idle player.\<close>

definition df_solo :: frame where
  "df_solo =
     \<lparr> columns = required,
       rows = [mk_row [(''minutes'', 90), (''np_goals'', 1)]
                 [(''player_id'', ''P1''), (''match_id'', ''M1'')]] \<rparr>"

definition df_pair :: frame where
  "df_pair =
     \<lparr> columns = required,
       rows = [mk_row [(''minutes'', 90), (''np_goals'', 1)]
                 [(''player_id'', ''P1''), (''match_id'', ''M1'')],
               mk_row [(''minutes'', 0), (''pass_completion_pct'', 80)]
                 [(''player_id'', ''P2''), (''match_id'', ''M1'')]] \<rparr>"

text \<open>The score columns of an output row.\<close>

definition score_cols :: "out_row \<Rightarrow> real \<times> real \<times> real \<times> fl \<times> fl" where
  "score_cols t = (oc t, dc t, base_score t, min_mult t, pele_raw t)"

definition rate_values :: "out_row \<Rightarrow> real list" where
  "rate_values t = map snd (rates t)"

text \<open>The weights a call uses.\<close>

definition weights_of :: "PeleWeights option \<Rightarrow> PeleWeights" where
  "weights_of weights = (case weights of None \<Rightarrow> default_weights | Some ws \<Rightarrow> ws)"

definition total_minutes :: "row list \<Rightarrow> real" where
  "total_minutes rs = sum_list (map (\<lambda>r. safe (num r ''minutes'')) rs)"

section \<open>The position-weighted variant\<close>

text \<open>
  \<open>str.upper()\<close>. On a string of ASCII characters it turns the letters a to z into A to Z
  and changes nothing else. On a string with other characters Python applies the case
  mapping of Unicode, which can change the length (a string is read as its UTF-8 bytes):
  it is the parameter \<open>unicode_upper\<close>.
\<close>

definition upper_char :: "char \<Rightarrow> char" where
  "upper_char c =
     (case map_of (zip ''abcdefghijklmnopqrstuvwxyz'' ''ABCDEFGHIJKLMNOPQRSTUVWXYZ'') c of
        None \<Rightarrow> c
      | Some u \<Rightarrow> u)"

definition is_ascii :: "char \<Rightarrow> bool" where
  "is_ascii c = (of_char c < (128 :: nat))"

definition str_upper :: "(string \<Rightarrow> string) \<Rightarrow> string \<Rightarrow> string" where
  "str_upper unicode_upper s =
     (if list_all is_ascii s then map upper_char s else unicode_upper s)"

definition startswith :: "string \<Rightarrow> string \<Rightarrow> bool" where
  "startswith s p = (take (length p) s = p)"

definition to_bucket :: "string \<Rightarrow> string" where
  "to_bucket p =
     (if startswith p ''ST'' \<or> startswith p ''CF'' \<or> p = ''FW'' then ''FW''
      else if p \<in> set [''LW'', ''RW''] \<or> startswith p ''AM'' \<or> p = ''CAM'' then ''WG''
      else if p \<in> set [''CM'', ''DM'', ''CDM'', ''LCM'', ''RCM''] then ''MF''
      else if p \<in> set [''LB'', ''RB'', ''LWB'', ''RWB'', ''WB'', ''FB''] then ''FB''
      else if p \<in> set [''CB'', ''RCB'', ''LCB''] then ''CB''
      else ''MF'')"

text \<open>
  \<open>_position_bucket\<close> on one cell: \<open>pos = position.fillna("").str.upper()\<close>, then
  \<open>to_bucket\<close>.
\<close>

definition upper_label :: "(string \<Rightarrow> string) \<Rightarrow> string option \<Rightarrow> string" where
  "upper_label unicode_upper position =
     str_upper unicode_upper (case position of None \<Rightarrow> [] | Some s \<Rightarrow> s)"

definition position_bucket :: "(string \<Rightarrow> string) \<Rightarrow> string option \<Rightarrow> string" where
  "position_bucket unicode_upper position = to_bucket (upper_label unicode_upper position)"

definition POSITION_WEIGHTS :: "(string \<times> (string \<times> real) list) list" where
  "POSITION_WEIGHTS =
     [(''FW'',
        [(''goals'', 5), (''assists'', 3), (''xg'', 5), (''xa'', 3), (''key_passes'', 3),
         (''prog_pass'', 1), (''prog_carry'', 4), (''dribbles'', 4), (''turnovers'', 3),
         (''pressures'', 3), (''tackles_int'', 1), (''blocks'', 1), (''aerials'', 3)]),
      (''WG'',
        [(''goals'', 4), (''assists'', 5), (''xg'', 4), (''xa'', 5), (''key_passes'', 5),
         (''prog_pass'', 3), (''prog_carry'', 5), (''dribbles'', 5), (''turnovers'', 5),
         (''pressures'', 3), (''tackles_int'', 1), (''blocks'', 1), (''aerials'', 1)]),
      (''MF'',
        [(''goals'', 3), (''assists'', 4), (''xg'', 3), (''xa'', 4), (''key_passes'', 4),
         (''prog_pass'', 5), (''prog_carry'', 3), (''dribbles'', 3), (''turnovers'', 5),
         (''pressures'', 4), (''tackles_int'', 4), (''blocks'', 3), (''aerials'', 3)]),
      (''FB'',
        [(''goals'', 1), (''assists'', 4), (''xg'', 1), (''xa'', 4), (''key_passes'', 4),
         (''prog_pass'', 5), (''prog_carry'', 4), (''dribbles'', 4), (''turnovers'', 5),
         (''pressures'', 4), (''tackles_int'', 5), (''blocks'', 3), (''aerials'', 3)]),
      (''CB'',
        [(''goals'', 1), (''assists'', 1), (''xg'', 1), (''xa'', 1), (''key_passes'', 1),
         (''prog_pass'', 3), (''prog_carry'', 1), (''dribbles'', 1), (''turnovers'', 3),
         (''pressures'', 5), (''tackles_int'', 5), (''blocks'', 5), (''aerials'', 5)])]"

definition BASE_WEIGHTS :: "(string \<times> real) list" where
  "BASE_WEIGHTS =
     [(''goals'', 0.24), (''assists'', 0.20), (''xg'', 0.10), (''xa'', 0.08),
      (''key_passes'', 0.04), (''prog_pass'', 0.016), (''prog_carry'', 0.012),
      (''dribbles'', 0.012), (''turnovers'', 0.02), (''pressures'', 0.012),
      (''tackles_int'', 0.024), (''blocks'', 0.016), (''aerials'', 0.01)]"

text \<open>
  \<open>get_weight\<close> for one row: \<open>POSITION_WEIGHTS[p][stat] * BASE_WEIGHTS[stat]\<close>;
  \<open>None\<close> is the \<open>KeyError\<close> of a missing key.
\<close>

definition get_weight :: "string \<Rightarrow> string \<Rightarrow> real option" where
  "get_weight stat p =
     (case map_of BASE_WEIGHTS stat of
        None \<Rightarrow> None
      | Some base \<Rightarrow>
          (case map_of POSITION_WEIGHTS p of
             None \<Rightarrow> None
           | Some tbl \<Rightarrow>
               (case map_of tbl stat of
                  None \<Rightarrow> None
                | Some lvl \<Rightarrow> Some (lvl * base))))"

text \<open>The level of a statistic in a bucket's table.\<close>

definition position_level :: "string \<Rightarrow> string \<Rightarrow> real option" where
  "position_level p stat =
     (case map_of POSITION_WEIGHTS p of None \<Rightarrow> None | Some tbl \<Rightarrow> map_of tbl stat)"

text \<open>The statistics that \<open>compute_pele\<close> asks \<open>get_weight\<close> for.\<close>

definition weighted_stats :: "string list" where
  "weighted_stats =
     [''goals'', ''assists'', ''xg'', ''xa'', ''key_passes'', ''prog_pass'', ''prog_carry'',
      ''dribbles'', ''turnovers'', ''pressures'', ''tackles_int'', ''blocks'', ''aerials'']"

definition buckets :: "string list" where
  "buckets = [''FW'', ''WG'', ''MF'', ''FB'', ''CB'']"

section \<open>Standardization, as the specification words it\<close>

text \<open>
  The standardized score of one value \<open>v\<close> within a population: \<open>50 + 10 * z\<close>, where
  \<open>z\<close> is the entry \<open>_zscore\<close> computes for \<open>v\<close>.
\<close>

definition std_score :: "fl list \<Rightarrow> fl \<Rightarrow> fl" where
  "std_score values v =
     (let mu = pd_mean values; sigma = pd_std0 values
      in fadd (F 50) (fmul (F 10)
           (if sigma = F 0 \<or> sigma = NaN then F 0 else fdiv (fsub v mu) sigma)))"

text \<open>The mean and the population variance (divide by N) of real numbers.\<close>

definition population_mean :: "real list \<Rightarrow> real" where
  "population_mean xs = sum_list xs / real (length xs)"

definition population_variance :: "real list \<Rightarrow> real" where
  "population_variance xs =
     sum_list (map (\<lambda>x. (x - population_mean xs)\<^sup>2) xs) / real (length xs)"

text \<open>Two players with 90 minutes each, one of them with a goal.\<close>

definition df_two :: frame where
  "df_two =
     \<lparr> columns = required,
       rows = [mk_row [(''minutes'', 90), (''np_goals'', 1)]
                 [(''player_id'', ''P1''), (''match_id'', ''M1'')],
               mk_row [(''minutes'', 90)]
                 [(''player_id'', ''P2''), (''match_id'', ''M1'')]] \<rparr>"

section \<open>Auxiliary notions for the grouped branch\<close>

text \<open>
  Whether \<open>np.average\<close> accepts the weights of a group, and the average it then returns.
\<close>

definition weights_ok :: "row list \<Rightarrow> bool" where
  "weights_ok grp =
     (case those (map avg_weight grp) of None \<Rightarrow> True | Some wgt \<Rightarrow> sum_list wgt \<noteq> 0)"

definition pct_avg :: "row list \<Rightarrow> string \<Rightarrow> real option" where
  "pct_avg grp col =
     (case those (map avg_weight grp) of
        None \<Rightarrow> None
      | Some wgt \<Rightarrow>
          (case those (map (\<lambda>r. num r col) grp) of
             None \<Rightarrow> None
           | Some a \<Rightarrow> Some (sum_list (map (\<lambda>(x, w). x * w) (zip a wgt)) / sum_list wgt)))"

text \<open>The row of \<open>rep\<close> for a group of a frame that has both percentage columns.\<close>

definition rep_of :: "frame \<Rightarrow> string list \<Rightarrow> string option list \<Rightarrow> row" where
  "rep_of df group_cols k =
     (let grp = group_rows group_cols (rows df) k
      in \<lparr> num = (\<lambda>c. if c \<in> set (present df) then Some (agg_sum grp c)
                       else if c \<in> set pct_cols then pct_avg grp c else None),
           idv = (\<lambda>c. if c = ''match_id'' then Some ''__aggregate__''
                       else if c = ''player_name'' \<and> with_name df group_cols
                       then name_agg (map (\<lambda>r. idv r ''player_name'') grp)
                       else flat_lookup (zip group_cols k) c) \<rparr>)"

text \<open>The scores of an output row, without its identity columns.\<close>

definition scores :: "out_row \<Rightarrow> (string \<times> real) list \<times> real \<times> real \<times> real \<times> fl \<times> fl \<times> fl option" where
  "scores t = (rates t, oc t, dc t, base_score t, min_mult t, pele_raw t, pele_100 t)"

text \<open>
  The output row of a group before \<open>player_name\<close> and \<open>pele_100\<close> are added: the
  scores of the group's row of \<open>rep\<close> under the group's key.
\<close>

definition group_out :: "PeleWeights \<Rightarrow> frame \<Rightarrow> string list \<Rightarrow> fl \<Rightarrow> string option list \<Rightarrow> out_row" where
  "group_out weights df group_cols reference k =
     (score_row weights reference [] (rep_of df group_cols k))
       \<lparr>ident := map (\<lambda>c. (c, flat_lookup (zip group_cols k) c)) group_cols\<rparr>"

definition identity_names :: "string list" where
  "identity_names = [''player_id'', ''player_name'', ''season'', ''team_id'']"

text \<open>A table without the \<open>match_id\<close> column and the statistics.\<close>

definition df_short :: frame where
  "df_short =
     \<lparr> columns = [''player_id'', ''minutes''],
       rows = [mk_row [(''minutes'', 90)] [(''player_id'', ''P1'')]] \<rparr>"

text \<open>Three matches of one player, named "Ann" in the first and "Bob" in the other two.\<close>

definition df_names :: frame where
  "df_names =
     \<lparr> columns = required @ [''player_name''],
       rows = [mk_row [(''minutes'', 90)]
                 [(''player_id'', ''P1''), (''match_id'', ''M1''), (''player_name'', ''Ann'')],
               mk_row [(''minutes'', 90)]
                 [(''player_id'', ''P1''), (''match_id'', ''M2''), (''player_name'', ''Bob'')],
               mk_row [(''minutes'', 90)]
                 [(''player_id'', ''P1''), (''match_id'', ''M3''), (''player_name'', ''Bob'')]] \<rparr>"

text \<open>The \<open>player_name\<close> column of a list of rows.\<close>

definition names_of :: "row list \<Rightarrow> string option list" where
  "names_of rs = map (\<lambda>r. idv r ''player_name'') rs"

text \<open>The values of the group columns in an output row.\<close>

definition group_key_of :: "string list \<Rightarrow> out_row \<Rightarrow> string option list" where
  "group_key_of group_cols t = map (flat_lookup (ident t)) group_cols"

text \<open>The rates and the components of an output row that do not depend on the population.\<close>

definition components :: "out_row \<Rightarrow> (string \<times> real) list \<times> real \<times> real \<times> real" where
  "components t = (rates t, oc t, dc t, base_score t)"

section \<open>Basic facts\<close>

lemma validate_ok: "set required \<subseteq> set (columns df) \<Longrightarrow> validate df = Inr ()"
  unfolding validate_def by (auto simp: find_None_iff split: option.splits)

lemma row_level_ok:
  "set required \<subseteq> set (columns df) \<Longrightarrow>
   row_level w df = Inr (map (score_row w (avg_minutes (rows df)) (identity_cols df)) (rows df))"
  by (simp add: row_level_def validate_ok)

lemma score_row_sel [simp]:
  "ident (score_row w ref ics r) = map (\<lambda>c. (c, idv r c)) ics"
  "rates (score_row w ref ics r) = rates_df r"
  "oc (score_row w ref ics r) = offensive_component w r"
  "dc (score_row w ref ics r) = defensive_component w r"
  "base_score (score_row w ref ics r) = offensive_component w r + defensive_component w r"
  "min_mult (score_row w ref ics r) = minutes_multiplier (F (safe (num r ''minutes''))) ref"
  "pele_raw (score_row w ref ics r) =
     fmul (F (offensive_component w r + defensive_component w r))
       (minutes_multiplier (F (safe (num r ''minutes''))) ref)"
  "pele_100 (score_row w ref ics r) = None"
  by (simp_all add: score_row_def Let_def)

lemma rate_idle: "safe (num r ''minutes'') = 0 \<Longrightarrow> rate r col = 0"
  by (auto simp: rate_def per90_def safe_def split: option.splits)

lemma oc_idle:
  "safe (num r ''minutes'') = 0 \<Longrightarrow>
   offensive_component w r =
     w_pass_pct w * (safe (num r ''pass_completion_pct'') / 100)
     + w_drib w * (safe (num r ''dribble_success_pct'') / 100)"
  by (simp add: offensive_component_def rate_idle)

lemma dc_idle: "safe (num r ''minutes'') = 0 \<Longrightarrow> defensive_component w r = 0"
  by (simp add: defensive_component_def rate_idle)

lemma length_zscore [simp]: "length (zscore vs) = length vs"
  by (simp add: zscore_def Let_def)

lemma length_add_pele_100 [simp]: "length (add_pele_100 t) = length t"
  by (simp add: add_pele_100_def)

lemma add_pele_100_nth:
  assumes "i < length t"
  shows "ident (add_pele_100 t ! i) = ident (t ! i)"
    "rates (add_pele_100 t ! i) = rates (t ! i)"
    "oc (add_pele_100 t ! i) = oc (t ! i)"
    "dc (add_pele_100 t ! i) = dc (t ! i)"
    "base_score (add_pele_100 t ! i) = base_score (t ! i)"
    "min_mult (add_pele_100 t ! i) = min_mult (t ! i)"
    "pele_raw (add_pele_100 t ! i) = pele_raw (t ! i)"
    "pele_100 (add_pele_100 t ! i) = Some (fadd (F 50) (fmul (F 10) (zscore (map pele_raw t) ! i)))"
  using assms by (simp_all add: add_pele_100_def)

lemma compute_pele_row_level:
  assumes "set required \<subseteq> set (columns df)"
  shows "compute_pele df None standardize weights =
     Inr ((if standardize then add_pele_100 else id)
            (map (score_row (weights_of weights) (avg_minutes (rows df)) (identity_cols df)) (rows df)))"
  by (simp add: compute_pele_def row_level_ok[OF assms] weights_of_def)

lemma multiplier_idle: "0 < a \<Longrightarrow> minutes_multiplier (F 0) (F a) = F 0"
  by (simp add: minutes_multiplier_def)

lemma avg_minutes_total:
  "rs \<noteq> [] \<Longrightarrow> avg_minutes rs = F (total_minutes rs / real (length rs))"
  by (simp add: avg_minutes_def total_minutes_def)

lemma valid_examples:
  "set required \<subseteq> set (columns df_idle)"
  "set required \<subseteq> set (columns df_solo)"
  "set required \<subseteq> set (columns df_pair)"
  by (simp_all add: df_idle_def df_solo_def df_pair_def)

section \<open>Rows without minutes\<close>

text \<open>
  C2. A row with zero minutes has every per-90 rate 0, and the claim has its multiplier
  and its \<open>pele_raw\<close> 0 as well. On the table of one idle player the mean of the
  minutes is 0, the multiplier is \<open>(0 / 0) ** 2\<close>, and the code returns NaN for both.
\<close>

theorem idle_table_min_mult_nan:
  "map_sum id (map rate_values) (compute_pele df_idle None False None)
     = Inr [map (\<lambda>_. 0) rate_cols]
   \<and> map_sum id (map min_mult) (compute_pele df_idle None False None) = Inr [NaN]
   \<and> map_sum id (map pele_raw) (compute_pele df_idle None False None) = Inr [NaN]"
proof -
  define r where "r = mk_row [(''minutes'', 0), (''pass_completion_pct'', 80)]
      [(''player_id'', ''P1''), (''match_id'', ''M1'')]"
  have rs: "rows df_idle = [r]"
    by (simp add: df_idle_def r_def)
  have m: "safe (num r ''minutes'') = 0"
    by (simp add: r_def mk_row_def safe_def)
  have rv: "rate_values (score_row w ref ics r) = map (\<lambda>_. 0) rate_cols" for w ref ics
    using m by (simp add: rate_values_def rates_df_def rate_idle comp_def)
  have mm: "minutes_multiplier (F 0) (avg_minutes [r]) = NaN"
    using m by (simp add: avg_minutes_def minutes_multiplier_def)
  show ?thesis
    using m by (simp add: compute_pele_row_level[OF valid_examples(1)] rs rv mm oc_idle dc_idle)
qed

text \<open>
  A row with zero minutes has every per-90 rate 0, so its offensive component is the two
  percentage terms alone,
  \<open>w_pass_pct * pass_completion_pct / 100 + w_drib * dribble_success_pct / 100\<close>
  (a missing percentage counting as 0), its defensive component is 0 and its
  \<open>base_score\<close> is its \<open>oc\<close>, which can be nonzero. When the minutes of the table sum
  to more than 0, the multiplier of the row is 0 and so is its \<open>pele_raw\<close>.
\<close>

lemma idle_row_components:
  assumes v: "set required \<subseteq> set (columns df)"
    and i: "i < length (rows df)"
    and m: "num (rows df ! i) ''minutes'' = Some 0"
  shows "\<exists>out. compute_pele df None standardize weights = Inr out
    \<and> length out = length (rows df)
    \<and> oc (out ! i) =
        w_pass_pct (weights_of weights) * (safe (num (rows df ! i) ''pass_completion_pct'') / 100)
        + w_drib (weights_of weights) * (safe (num (rows df ! i) ''dribble_success_pct'') / 100)
    \<and> dc (out ! i) = 0
    \<and> base_score (out ! i) = oc (out ! i)
    \<and> rate_values (out ! i) = map (\<lambda>_. 0) rate_cols
    \<and> (0 < total_minutes (rows df) \<longrightarrow> min_mult (out ! i) = F 0 \<and> pele_raw (out ! i) = F 0)"
proof -
  let ?t = "map (score_row (weights_of weights) (avg_minutes (rows df)) (identity_cols df)) (rows df)"
  let ?out = "(if standardize then add_pele_100 else id) ?t"
  have s: "safe (num (rows df ! i) ''minutes'') = 0" using m by (simp add: safe_def)
  have ne: "rows df \<noteq> []" using i by auto
  have len: "length ?out = length (rows df)" by simp
  have it: "i < length ?t" using i by simp
  have sel: "oc (?out ! i) = oc (?t ! i)" "dc (?out ! i) = dc (?t ! i)"
    "base_score (?out ! i) = base_score (?t ! i)" "rates (?out ! i) = rates (?t ! i)"
    "min_mult (?out ! i) = min_mult (?t ! i)" "pele_raw (?out ! i) = pele_raw (?t ! i)"
    using add_pele_100_nth[OF it] by (cases standardize; simp)+
  have mm: "0 < total_minutes (rows df) \<Longrightarrow>
      minutes_multiplier (F 0) (avg_minutes (rows df)) = F 0"
    using ne i by (simp add: avg_minutes_total multiplier_idle)
  show ?thesis
    apply (rule exI[of _ ?out])
    apply (intro conjI)
          apply (rule compute_pele_row_level[OF v])
         apply (rule len)
    using i s apply (simp add: sel oc_idle)
    using i s apply (simp add: sel dc_idle)
    using i s apply (simp add: sel dc_idle)
    using i s apply (simp add: sel rate_values_def rates_df_def rate_idle comp_def)
    using i s mm apply (simp add: sel oc_idle dc_idle)
    done
qed

lemma idle_row_components_example:
  "set required \<subseteq> set (columns df_pair) \<and> 1 < length (rows df_pair)
   \<and> num (rows df_pair ! 1) ''minutes'' = Some 0 \<and> 0 < total_minutes (rows df_pair)
   \<and> (\<exists>out. compute_pele df_pair None False None = Inr out \<and> length out = 2
         \<and> oc (out ! 1) = 2 / 125 \<and> base_score (out ! 1) = 2 / 125
         \<and> rate_values (out ! 1) = map (\<lambda>_. 0) rate_cols
         \<and> min_mult (out ! 1) = F 0 \<and> pele_raw (out ! 1) = F 0)"
proof -
  have h: "1 < length (rows df_pair)" "num (rows df_pair ! 1) ''minutes'' = Some 0"
    "0 < total_minutes (rows df_pair)"
    "safe (num (rows df_pair ! 1) ''pass_completion_pct'') = 80"
    "safe (num (rows df_pair ! 1) ''dribble_success_pct'') = 0"
    "length (rows df_pair) = 2"
    by (simp_all add: df_pair_def mk_row_def total_minutes_def safe_def)
  have w: "w_pass_pct (weights_of None) = 2 / 100"
    by (simp add: weights_of_def default_weights_def)
  from idle_row_components[OF valid_examples(3) h(1) h(2), of False None]
  show ?thesis
    using h w valid_examples(3) by (auto simp del: One_nat_def)
qed

text \<open>
  C10. For a row with zero minutes the claim has \<open>oc\<close> and \<open>base_score\<close> equal to the
  percentage terms, and \<open>pele_raw\<close> equal to 0 because \<open>min_mult\<close> is 0. On the table of
  one idle player with 80 percent of the passes completed, \<open>oc\<close> and \<open>base_score\<close> are
  \<open>0.02 * 80 / 100 = 0.016\<close> and \<open>dc\<close> is 0, as claimed, but the mean of the minutes is
  0, so \<open>min_mult\<close> is \<open>(0 / 0) ** 2\<close>: the code returns NaN for \<open>min_mult\<close> and for
  \<open>pele_raw\<close>. The division that \<open>_minutes_multiplier\<close> leaves unguarded is the one
  of C2.
\<close>

theorem idle_table_pele_raw_nan:
  "map_sum id (map score_cols) (compute_pele df_idle None False None)
     = Inr [(2 / 125, 0, 2 / 125, NaN, NaN)]"
proof -
  define r where "r = mk_row [(''minutes'', 0), (''pass_completion_pct'', 80)]
      [(''player_id'', ''P1''), (''match_id'', ''M1'')]"
  have rs: "rows df_idle = [r]"
    by (simp add: df_idle_def r_def)
  have m: "safe (num r ''minutes'') = 0" "safe (num r ''pass_completion_pct'') = 80"
    "safe (num r ''dribble_success_pct'') = 0"
    by (simp_all add: r_def mk_row_def safe_def)
  have mm: "minutes_multiplier (F 0) (avg_minutes [r]) = NaN"
    using m by (simp add: avg_minutes_def minutes_multiplier_def)
  have w: "w_pass_pct (weights_of None) = 2 / 100"
    by (simp add: weights_of_def default_weights_def)
  show ?thesis
    using m by (simp add: compute_pele_row_level[OF valid_examples(1)] rs mm oc_idle dc_idle
        score_cols_def w)
qed

section \<open>The minutes multiplier\<close>

lemma multiplier_finite:
  "- 1 < m \<Longrightarrow> - 1 < a \<Longrightarrow> a \<noteq> 0 \<Longrightarrow>
   minutes_multiplier (F m) (F a) = F ((ln (1 + m) / ln (1 + a))\<^sup>2)"
  by (simp add: minutes_multiplier_def power2_eq_square)

text \<open>
  C6. In the row-level table of one call, the multiplier of a row is
  \<open>(log1p(minutes) / log1p(reference)) ** 2.0\<close> with the row's minutes (0 when
  missing) and, for the reference, the mean of the minutes column (missing as 0) over all
  rows of the call; where both logarithms are finite and the reference is not 0, it is the
  real number \<open>(ln (1 + minutes) / ln (1 + reference))\<^sup>2\<close>. The same row has multiplier 1
  when it is the whole table and another multiplier beside an idle player.
\<close>

theorem min_mult_population_mean:
  "(\<forall>df i standardize weights.
      set required \<subseteq> set (columns df) \<longrightarrow> i < length (rows df) \<longrightarrow>
      (\<exists>out. compute_pele df None standardize weights = Inr out
         \<and> length out = length (rows df)
         \<and> min_mult (out ! i) =
             fsquare (fdiv (log1p (F (safe (num (rows df ! i) ''minutes''))))
                           (log1p (F (total_minutes (rows df) / real (length (rows df))))))
         \<and> (- 1 < safe (num (rows df ! i) ''minutes'')
              \<and> - 1 < total_minutes (rows df) / real (length (rows df))
              \<and> total_minutes (rows df) / real (length (rows df)) \<noteq> 0 \<longrightarrow>
            min_mult (out ! i) =
              F ((ln (1 + safe (num (rows df ! i) ''minutes''))
                  / ln (1 + total_minutes (rows df) / real (length (rows df))))\<^sup>2))))
   \<and> rows df_pair ! 0 = rows df_solo ! 0
   \<and> map_sum id (map min_mult) (compute_pele df_solo None False None) = Inr [F 1]
   \<and> map_sum id (map min_mult) (compute_pele df_pair None False None)
       = Inr [F ((ln 91 / ln 46)\<^sup>2), F 0]
   \<and> (ln 91 / ln 46)\<^sup>2 \<noteq> (1::real)"
proof (intro conjI allI impI)
  fix df :: frame and i standardize weights
  assume v: "set required \<subseteq> set (columns df)" and i: "i < length (rows df)"
  let ?t = "map (score_row (weights_of weights) (avg_minutes (rows df)) (identity_cols df)) (rows df)"
  let ?out = "(if standardize then add_pele_100 else id) ?t"
  have ne: "rows df \<noteq> []" using i by auto
  have it: "i < length ?t" using i by simp
  have sel: "min_mult (?out ! i) = min_mult (?t ! i)"
    using add_pele_100_nth[OF it] by (cases standardize; simp)
  have mm: "min_mult (?out ! i) =
      minutes_multiplier (F (safe (num (rows df ! i) ''minutes'')))
        (F (total_minutes (rows df) / real (length (rows df))))"
    unfolding sel using i by (simp add: avg_minutes_total[OF ne])
  show "\<exists>out. compute_pele df None standardize weights = Inr out
         \<and> length out = length (rows df)
         \<and> min_mult (out ! i) =
             fsquare (fdiv (log1p (F (safe (num (rows df ! i) ''minutes''))))
                           (log1p (F (total_minutes (rows df) / real (length (rows df))))))
         \<and> (- 1 < safe (num (rows df ! i) ''minutes'')
              \<and> - 1 < total_minutes (rows df) / real (length (rows df))
              \<and> total_minutes (rows df) / real (length (rows df)) \<noteq> 0 \<longrightarrow>
            min_mult (out ! i) =
              F ((ln (1 + safe (num (rows df ! i) ''minutes''))
                  / ln (1 + total_minutes (rows df) / real (length (rows df))))\<^sup>2))"
    apply (rule exI[of _ ?out])
    apply (intro conjI impI)
       apply (rule compute_pele_row_level[OF v])
      apply simp
     apply (simp only: mm minutes_multiplier_def Let_def)
    apply (simp only: mm)
    apply (rule multiplier_finite)
      apply simp_all
    done
next
  show "rows df_pair ! 0 = rows df_solo ! 0"
    by (simp add: df_pair_def df_solo_def)
next
  show "map_sum id (map min_mult) (compute_pele df_solo None False None) = Inr [F 1]"
    by (simp add: compute_pele_row_level[OF valid_examples(2)])
      (simp add: df_solo_def mk_row_def safe_def avg_minutes_def minutes_multiplier_def)
next
  show "map_sum id (map min_mult) (compute_pele df_pair None False None)
       = Inr [F ((ln 91 / ln 46)\<^sup>2), F 0]"
    by (simp add: compute_pele_row_level[OF valid_examples(3)])
      (simp add: df_pair_def mk_row_def safe_def avg_minutes_def minutes_multiplier_def
        power2_eq_square)
next
  have "(0::real) < ln 46" "ln (46::real) < ln 91" by simp_all
  then have "1 < ln 91 / ln (46::real)" by simp
  then have "1 * 1 < (ln 91 / ln (46::real)) * (ln 91 / ln 46)"
    by (intro mult_strict_mono) simp_all
  then have "1 < (ln 91 / ln (46::real))\<^sup>2" unfolding power2_eq_square by simp
  then show "(ln 91 / ln 46)\<^sup>2 \<noteq> (1::real)" by linarith
qed


theorem min_mult_population_mean_witness:
  "set required \<subseteq> set (columns df_solo) \<and> 0 < length (rows df_solo)
   \<and> (\<exists>out. compute_pele df_solo None True None = Inr out \<and> length out = 1
         \<and> min_mult (out ! 0) = F 1)"
proof -
  have h: "0 < length (rows df_solo)" "length (rows df_solo) = 1"
    "safe (num (rows df_solo ! 0) ''minutes'') = 90" "total_minutes (rows df_solo) = 90"
    by (simp_all add: df_solo_def mk_row_def total_minutes_def safe_def)
  from min_mult_population_mean[THEN conjunct1, rule_format, OF valid_examples(2) h(1),
      of True None]
  show ?thesis
    using h valid_examples(2) by auto
qed

section \<open>Position buckets\<close>

lemma upper_label_examples:
  "upper_label uu (Some ''RCB'') = ''RCB''"
  "upper_label uu (Some ''rcb'') = ''RCB''"
  "upper_label uu (Some ''CAM'') = ''CAM''"
  "upper_label uu (Some ''GK'') = ''GK''"
  "upper_label uu None = []"
  by (simp_all add: upper_label_def str_upper_def is_ascii_def upper_char_def)

lemma bucket_range: "position_bucket uu p \<in> set buckets"
  by (simp add: position_bucket_def to_bucket_def buckets_def)

lemma bucket_FW:
  "startswith p ''ST'' \<or> startswith p ''CF'' \<or> p = ''FW'' \<Longrightarrow> to_bucket p = ''FW''"
  by (simp add: to_bucket_def)

lemma bucket_WG_prefix:
  assumes "startswith p ''AM''"
  shows "to_bucket p = ''WG''"
proof -
  have "\<not> startswith p ''ST''" "\<not> startswith p ''CF''"
    using assms by (simp_all add: startswith_def)
  moreover have "p \<noteq> ''FW''"
    using assms by (auto simp add: startswith_def)
  ultimately show ?thesis
    using assms by (simp add: to_bucket_def)
qed

lemma bucket_exact:
  "list_all (\<lambda>l. to_bucket l = ''WG'') [''LW'', ''RW'', ''CAM'']"
  "list_all (\<lambda>l. to_bucket l = ''FB'') [''LB'', ''RB'', ''LWB'', ''RWB'', ''WB'', ''FB'']"
  "list_all (\<lambda>l. to_bucket l = ''CB'') [''CB'', ''RCB'', ''LCB'']"
  by code_simp+

lemma bucket_MF:
  "\<not> (startswith p ''ST'' \<or> startswith p ''CF'' \<or> startswith p ''AM'')
   \<Longrightarrow> p \<notin> set [''FW'', ''LW'', ''RW'', ''CAM'', ''LB'', ''RB'', ''LWB'', ''RWB'', ''WB'', ''FB'',
               ''CB'', ''RCB'', ''LCB'']
   \<Longrightarrow> to_bucket p = ''MF''"
  unfolding to_bucket_def by (simp only: set_simps insert_iff empty_iff de_Morgan_disj if_False simp_thms split: if_split)

lemma weight_table_check:
  "list_all (\<lambda>b. list_all (\<lambda>stat.
      case map_of BASE_WEIGHTS stat of
        None \<Rightarrow> False
      | Some base \<Rightarrow>
          (case position_level b stat of
             None \<Rightarrow> False
           | Some lvl \<Rightarrow> lvl \<in> set [1, 2, 3, 4, 5] \<and> get_weight stat b = Some (lvl * base)))
     weighted_stats) buckets"
  by code_simp

lemma weight_table:
  assumes "b \<in> set buckets" "stat \<in> set weighted_stats"
  shows "\<exists>base lvl. map_of BASE_WEIGHTS stat = Some base \<and> position_level b stat = Some lvl
      \<and> lvl \<in> {1, 2, 3, 4, 5} \<and> get_weight stat b = Some (lvl * base)"
proof -
  from weight_table_check assms
  have "case map_of BASE_WEIGHTS stat of
        None \<Rightarrow> False
      | Some base \<Rightarrow>
          (case position_level b stat of
             None \<Rightarrow> False
           | Some lvl \<Rightarrow> lvl \<in> set [1, 2, 3, 4, 5] \<and> get_weight stat b = Some (lvl * base))"
    unfolding list_all_iff by blast
  then show ?thesis
    by (cases "map_of BASE_WEIGHTS stat"; cases "position_level b stat") auto
qed


text \<open>
  C9. In the position-weighted variant the label "RCB" resolves to the bucket "CB", "CAM"
  to "WG", the unrecognized "GK" and a missing label to "MF". In general, with \<open>p\<close> the
  label after \<open>fillna("")\<close> and \<open>str.upper()\<close>: \<open>p\<close> starting with "ST" or "CF", or equal
  to "FW", resolves to "FW"; "LW", "RW", "CAM" and \<open>p\<close> starting with "AM" resolve to "WG";
  "LB", "RB", "LWB", "RWB", "WB", "FB" resolve to "FB"; "CB", "RCB", "LCB" resolve to "CB";
  and every other label, recognized as a midfielder or not recognized at all, resolves to
  "MF". So every label resolves to one of FW, WG, MF, FB, CB. For each statistic the weight
  \<open>get_weight\<close> gives a row is \<open>BASE_WEIGHTS[stat]\<close> times
  \<open>POSITION_WEIGHTS[bucket][stat]\<close>, the latter one of 1, 2, 3, 4, 5. The statement holds
  whatever \<open>str.upper()\<close> does to a label with characters outside ASCII.
\<close>

theorem position_bucket_weights:
  "position_bucket uu (Some ''RCB'') = ''CB''
   \<and> position_bucket uu (Some ''CAM'') = ''WG''
   \<and> position_bucket uu (Some ''GK'') = ''MF''
   \<and> position_bucket uu None = ''MF''
   \<and> (\<forall>position. position_bucket uu position \<in> set buckets)
   \<and> (\<forall>position.
         startswith (upper_label uu position) ''ST'' \<or> startswith (upper_label uu position) ''CF''
         \<or> upper_label uu position = ''FW''
         \<longrightarrow> position_bucket uu position = ''FW'')
   \<and> (\<forall>position.
         upper_label uu position \<in> set [''LW'', ''RW'', ''CAM'']
         \<or> startswith (upper_label uu position) ''AM''
         \<longrightarrow> position_bucket uu position = ''WG'')
   \<and> (\<forall>position.
         upper_label uu position \<in> set [''LB'', ''RB'', ''LWB'', ''RWB'', ''WB'', ''FB'']
         \<longrightarrow> position_bucket uu position = ''FB'')
   \<and> (\<forall>position.
         upper_label uu position \<in> set [''CB'', ''RCB'', ''LCB'']
         \<longrightarrow> position_bucket uu position = ''CB'')
   \<and> (\<forall>position.
         \<not> (startswith (upper_label uu position) ''ST''
            \<or> startswith (upper_label uu position) ''CF''
            \<or> startswith (upper_label uu position) ''AM'')
         \<and> upper_label uu position \<notin> set [''FW'', ''LW'', ''RW'', ''CAM'', ''LB'', ''RB'', ''LWB'',
               ''RWB'', ''WB'', ''FB'', ''CB'', ''RCB'', ''LCB'']
         \<longrightarrow> position_bucket uu position = ''MF'')
   \<and> (\<forall>position stat. stat \<in> set weighted_stats \<longrightarrow>
        (\<exists>base lvl. map_of BASE_WEIGHTS stat = Some base
           \<and> position_level (position_bucket uu position) stat = Some lvl
           \<and> lvl \<in> {1, 2, 3, 4, 5}
           \<and> get_weight stat (position_bucket uu position) = Some (lvl * base)))"
proof (intro conjI allI impI)
  show "position_bucket uu (Some ''RCB'') = ''CB''"
    unfolding position_bucket_def upper_label_examples by code_simp
  show "position_bucket uu (Some ''CAM'') = ''WG''"
    unfolding position_bucket_def upper_label_examples by code_simp
  show "position_bucket uu (Some ''GK'') = ''MF''"
    unfolding position_bucket_def upper_label_examples by code_simp
  show "position_bucket uu None = ''MF''"
    unfolding position_bucket_def upper_label_examples by code_simp
  show "position_bucket uu position \<in> set buckets" for position
    by (rule bucket_range)
  show "position_bucket uu position = ''FW''"
    if "startswith (upper_label uu position) ''ST'' \<or> startswith (upper_label uu position) ''CF''
         \<or> upper_label uu position = ''FW''" for position
    unfolding position_bucket_def using that by (rule bucket_FW)
  show "position_bucket uu position = ''WG''"
    if h: "upper_label uu position \<in> set [''LW'', ''RW'', ''CAM'']
         \<or> startswith (upper_label uu position) ''AM''" for position
    unfolding position_bucket_def
    using h bucket_exact(1)[unfolded list_all_iff] bucket_WG_prefix by blast
  show "position_bucket uu position = ''FB''"
    if h: "upper_label uu position \<in> set [''LB'', ''RB'', ''LWB'', ''RWB'', ''WB'', ''FB'']"
    for position
    unfolding position_bucket_def
    using h bucket_exact(2)[unfolded list_all_iff] by blast
  show "position_bucket uu position = ''CB''"
    if h: "upper_label uu position \<in> set [''CB'', ''RCB'', ''LCB'']" for position
    unfolding position_bucket_def
    using h bucket_exact(3)[unfolded list_all_iff] by blast
  show "position_bucket uu position = ''MF''"
    if h: "\<not> (startswith (upper_label uu position) ''ST''
            \<or> startswith (upper_label uu position) ''CF''
            \<or> startswith (upper_label uu position) ''AM'')
         \<and> upper_label uu position \<notin> set [''FW'', ''LW'', ''RW'', ''CAM'', ''LB'', ''RB'', ''LWB'',
               ''RWB'', ''WB'', ''FB'', ''CB'', ''RCB'', ''LCB'']" for position
    unfolding position_bucket_def
    using h[THEN conjunct1] h[THEN conjunct2] by (rule bucket_MF)
  show "\<exists>base lvl. map_of BASE_WEIGHTS stat = Some base
           \<and> position_level (position_bucket uu position) stat = Some lvl
           \<and> lvl \<in> {1, 2, 3, 4, 5}
           \<and> get_weight stat (position_bucket uu position) = Some (lvl * base)"
    if "stat \<in> set weighted_stats" for position stat
    using weight_table[OF bucket_range that] .
qed

theorem position_bucket_weights_witness:
  "''goals'' \<in> set weighted_stats
   \<and> upper_label (\<lambda>s. s) (Some ''rcb'') \<in> set [''CB'', ''RCB'', ''LCB'']
   \<and> position_bucket (\<lambda>s. s) (Some ''rcb'') = ''CB''
   \<and> get_weight ''goals'' (position_bucket (\<lambda>s. s) (Some ''rcb'')) = Some (24 / 100)
   \<and> get_weight ''aerials'' (position_bucket (\<lambda>s. s) (Some ''rcb'')) = Some (5 / 100)
   \<and> \<not> (startswith (upper_label (\<lambda>s. s) (Some ''Sweeper'')) ''ST''
          \<or> startswith (upper_label (\<lambda>s. s) (Some ''Sweeper'')) ''CF''
          \<or> startswith (upper_label (\<lambda>s. s) (Some ''Sweeper'')) ''AM'')
   \<and> upper_label (\<lambda>s. s) (Some ''Sweeper'') \<notin> set [''FW'', ''LW'', ''RW'', ''CAM'', ''LB'', ''RB'',
         ''LWB'', ''RWB'', ''WB'', ''FB'', ''CB'', ''RCB'', ''LCB'']
   \<and> position_bucket (\<lambda>s. s) (Some ''Sweeper'') = ''MF''
   \<and> startswith (upper_label (\<lambda>s. s) (Some ''striker'')) ''ST''
   \<and> position_bucket (\<lambda>s. s) (Some ''striker'') = ''FW''"
proof -
  note t = position_bucket_weights[of "\<lambda>s. s"]
  have s: "''goals'' \<in> set weighted_stats" "''aerials'' \<in> set weighted_stats"
    by (simp_all add: weighted_stats_def)
  have u: "upper_label (\<lambda>s. s) (Some ''rcb'') = ''RCB''"
    "upper_label (\<lambda>s. s) (Some ''Sweeper'') = ''SWEEPER''"
    "upper_label (\<lambda>s. s) (Some ''striker'') = ''STRIKER''"
    by (simp_all add: upper_label_def str_upper_def is_ascii_def upper_char_def)
  have m: "upper_label (\<lambda>s. s) (Some ''rcb'') \<in> set [''CB'', ''RCB'', ''LCB'']"
    unfolding u by simp
  have b: "position_bucket (\<lambda>s. s) (Some ''rcb'') = ''CB''"
    using t m by blast
  have d1: "\<not> (startswith (upper_label (\<lambda>s. s) (Some ''Sweeper'')) ''ST''
          \<or> startswith (upper_label (\<lambda>s. s) (Some ''Sweeper'')) ''CF''
          \<or> startswith (upper_label (\<lambda>s. s) (Some ''Sweeper'')) ''AM'')"
    unfolding u by (simp add: startswith_def)
  have d2: "upper_label (\<lambda>s. s) (Some ''Sweeper'') \<notin> set [''FW'', ''LW'', ''RW'', ''CAM'', ''LB'',
         ''RB'', ''LWB'', ''RWB'', ''WB'', ''FB'', ''CB'', ''RCB'', ''LCB'']"
    unfolding u by simp
  have d: "position_bucket (\<lambda>s. s) (Some ''Sweeper'') = ''MF''"
    using t d1 d2 by blast
  have f1: "startswith (upper_label (\<lambda>s. s) (Some ''striker'')) ''ST''"
    unfolding u by (simp add: startswith_def)
  have f: "position_bucket (\<lambda>s. s) (Some ''striker'') = ''FW''"
    using t f1 by blast
  have v: "map_of BASE_WEIGHTS ''goals'' = Some (24 / 100)"
    "map_of BASE_WEIGHTS ''aerials'' = Some (1 / 100)"
    "position_level ''CB'' ''goals'' = Some 1" "position_level ''CB'' ''aerials'' = Some 5"
    by (simp_all add: BASE_WEIGHTS_def position_level_def POSITION_WEIGHTS_def)
  from t s(1)
  obtain base lvl where g: "map_of BASE_WEIGHTS ''goals'' = Some base"
    "position_level (position_bucket (\<lambda>s. s) (Some ''rcb'')) ''goals'' = Some lvl"
    "get_weight ''goals'' (position_bucket (\<lambda>s. s) (Some ''rcb'')) = Some (lvl * base)"
    by blast
  from t s(2)
  obtain base' lvl' where a: "map_of BASE_WEIGHTS ''aerials'' = Some base'"
    "position_level (position_bucket (\<lambda>s. s) (Some ''rcb'')) ''aerials'' = Some lvl'"
    "get_weight ''aerials'' (position_bucket (\<lambda>s. s) (Some ''rcb'')) = Some (lvl' * base')"
    by blast
  have w: "get_weight ''goals'' (position_bucket (\<lambda>s. s) (Some ''rcb'')) = Some (24 / 100)"
    "get_weight ''aerials'' (position_bucket (\<lambda>s. s) (Some ''rcb'')) = Some (5 / 100)"
    using b v g a by simp_all
  show ?thesis
    by (intro conjI s(1) m b w d1 d2 d f1 f)
qed

section \<open>Standardization\<close>

lemma fadd_commute: "fadd x y = fadd y x"
  by (cases x; cases y; simp)

lemma fadd_assoc: "fadd (fadd x y) z = fadd x (fadd y z)"
  by (cases x; cases y; cases z; simp)

lemma fadd_left_commute: "fadd x (fadd y z) = fadd y (fadd x z)"
  by (metis fadd_assoc fadd_commute)

lemma fsum_mset: "mset xs = mset ys \<Longrightarrow> fsum xs = fsum ys"
proof -
  assume m: "mset xs = mset ys"
  have c: "fadd x \<circ> fadd y = fadd y \<circ> fadd x" for x y
    by (rule ext) (simp add: fadd_left_commute)
  have "fold fadd xs = fold fadd ys"
    by (rule fold_multiset_equiv[OF _ m]) (rule c)
  moreover have "foldr fadd zs = fold fadd zs" for zs
    by (rule foldr_fold) (rule c)
  ultimately show ?thesis by (simp add: fsum_def)
qed

lemma pd_mean_mset: "mset xs = mset ys \<Longrightarrow> pd_mean xs = pd_mean ys"
proof -
  assume m: "mset xs = mset ys"
  then have f: "mset (filter not_nan xs) = mset (filter not_nan ys)"
    by simp
  then have "length (filter not_nan xs) = length (filter not_nan ys)"
    by (rule mset_eq_length)
  moreover have "filter not_nan xs = [] \<longleftrightarrow> filter not_nan ys = []"
    using f by (metis mset_zero_iff)
  ultimately show ?thesis
    unfolding pd_mean_def Let_def using fsum_mset[OF f] by simp
qed

lemma pd_std0_mset: "mset xs = mset ys \<Longrightarrow> pd_std0 xs = pd_std0 ys"
proof -
  assume m: "mset xs = mset ys"
  then have f: "mset (filter not_nan xs) = mset (filter not_nan ys)"
    by simp
  then have l: "length (filter not_nan xs) = length (filter not_nan ys)"
    by (rule mset_eq_length)
  have e: "filter not_nan xs = [] \<longleftrightarrow> filter not_nan ys = []"
    using f by (metis mset_zero_iff)
  have s: "fsum (filter not_nan xs) = fsum (filter not_nan ys)"
    by (rule fsum_mset[OF f])
  have "mset (map g (filter not_nan xs)) = mset (map g (filter not_nan ys))" for g :: "fl \<Rightarrow> fl"
    using f by (metis mset_map)
  then have q: "fsum (map g (filter not_nan xs)) = fsum (map g (filter not_nan ys))"
    for g :: "fl \<Rightarrow> fl"
    by (rule fsum_mset)
  show ?thesis
    unfolding pd_std0_def Let_def using l e s q by simp
qed

lemma std_score_mset: "mset xs = mset ys \<Longrightarrow> std_score xs v = std_score ys v"
  by (simp add: std_score_def pd_mean_mset[of xs ys] pd_std0_mset[of xs ys])

lemma zscore_nth:
  "i < length vs \<Longrightarrow>
   fadd (F 50) (fmul (F 10) (zscore vs ! i)) = std_score vs (vs ! i)"
  by (simp add: zscore_def std_score_def Let_def)

lemma add_pele_100_raw [simp]: "map pele_raw (add_pele_100 t) = map pele_raw t"
  by (rule nth_equalityI) (simp_all add: add_pele_100_nth)

lemma add_pele_100_score:
  assumes "r \<in> set (add_pele_100 t)"
  shows "pele_100 r = Some (std_score (map pele_raw t) (pele_raw r))"
proof -
  from assms obtain i where i: "i < length t" "r = add_pele_100 t ! i"
    by (metis in_set_conv_nth length_add_pele_100)
  show ?thesis
    using i add_pele_100_nth(7,8)[OF i(1)] zscore_nth[of i "map pele_raw t"] by simp
qed

lemma mset_insert_desc: "mset (insert_desc x ys) = add_mset x (mset ys)"
  by (induction ys) simp_all

lemma mset_sort_values: "mset (sort_values t) = mset t"
proof -
  have "mset (foldr insert_desc xs []) = mset xs" for xs
    by (induction xs) (simp_all add: mset_insert_desc)
  then show ?thesis
    by (simp add: sort_values_def)
qed


lemma fsum_finite: "fsum (map F rs) = F (sum_list rs)"
  by (induction rs) (simp_all add: fsum_def)

lemma filter_finite: "filter not_nan (map F rs) = map F rs"
  by (induction rs) (simp_all add: not_nan_def)

lemma pd_mean_finite:
  "rs \<noteq> [] \<Longrightarrow> pd_mean (map F rs) = F (population_mean rs)"
  by (simp add: pd_mean_def filter_finite fsum_finite population_mean_def)

lemma fsum_finite_map: "fsum (map (\<lambda>x. F (g x)) xs) = F (sum_list (map g xs))"
  by (induction xs) (simp_all add: fsum_def)

lemma pd_std0_finite:
  assumes "rs \<noteq> []"
  shows "pd_std0 (map F rs) = F (sqrt (population_variance rs))"
proof -
  let ?mu = "population_mean rs"
  have sq: "(?mu - x) * (?mu - x) = (x - ?mu)\<^sup>2" for x
    by (simp add: power2_eq_square algebra_simps)
  have nn: "0 \<le> population_variance rs"
    unfolding population_variance_def by (intro divide_nonneg_nonneg sum_list_nonneg) auto
  have "pd_std0 (map F rs) =
      fsqrt (fdiv (fsum (map (\<lambda>x. F ((?mu - x) * (?mu - x))) rs)) (F (real (length rs))))"
    using assms
    by (simp add: pd_std0_def Let_def filter_finite fsum_finite population_mean_def
        fsub_def comp_def)
  also have "\<dots> = fsqrt (F (population_variance rs))"
    using assms by (simp add: fsum_finite_map sq population_variance_def)
  also have "\<dots> = F (sqrt (population_variance rs))"
    using nn by simp
  finally show ?thesis .
qed

lemma std_score_finite:
  assumes "rs \<noteq> []" "population_variance rs \<noteq> 0"
  shows "std_score (map F rs) (F r)
    = F (50 + 10 * ((r - population_mean rs) / sqrt (population_variance rs)))"
  using assms
  by (simp add: std_score_def Let_def pd_mean_finite pd_std0_finite fsub_def)

lemma std_score_degenerate:
  "pd_std0 vs = F 0 \<or> pd_std0 vs = NaN \<Longrightarrow> std_score vs v = F 50"
  by (auto simp: std_score_def Let_def)

lemma fsum_replicate_inf:
  "0 < n \<Longrightarrow> fsum (replicate n PInf) = PInf"
  "0 < n \<Longrightarrow> fsum (replicate n NInf) = NInf"
  "0 < n \<Longrightarrow> fsum (replicate n NaN) = NaN"
  by (induction n; simp add: fsum_def; case_tac n; simp)+

lemma pd_std0_constant: "pd_std0 (replicate n v) = F 0 \<or> pd_std0 (replicate n v) = NaN"
proof (cases "n = 0")
  case True
  then show ?thesis by (simp add: pd_std0_def)
next
  case False
  then have n: "0 < n" by simp
  show ?thesis
  proof (cases v)
    case (F r)
    have "replicate n v = map F (replicate n r)" by (simp add: F)
    moreover have "population_variance (replicate n r) = 0"
      using n by (simp add: population_variance_def population_mean_def sum_list_replicate
          map_replicate_const[symmetric])
    ultimately show ?thesis
      using n pd_std0_finite[of "replicate n r"] by simp
  next
    case PInf
    then show ?thesis
      using n by (simp add: pd_std0_def Let_def not_nan_def fsum_replicate_inf fsub_def)
  next
    case NInf
    then show ?thesis
      using n by (simp add: pd_std0_def Let_def not_nan_def fsum_replicate_inf fsub_def)
  next
    case NaN
    then show ?thesis by (simp add: pd_std0_def not_nan_def)
  qed
qed

lemma constant_list: "set xs \<subseteq> {v} \<Longrightarrow> xs = replicate (length xs) v"
  by (induction xs) auto


lemma compute_pele_standardized:
  assumes "compute_pele df group_by True weights = Inr out"
  shows "\<exists>t. out = add_pele_100 t \<or> out = sort_values (add_pele_100 t)"
  using assms unfolding compute_pele_def grouped_def Let_def
  by (auto split: sum.splits option.splits list.splits)

text \<open>
  C5. With \<open>standardize=True\<close>, row-level or grouped, the \<open>pele_100\<close> of every returned
  row is \<open>50 + 10 * z\<close>, where \<open>z\<close> is the z-score of the row's \<open>pele_raw\<close> within the
  \<open>pele_raw\<close> column of the returned table. When all these values are finite and their
  population variance (divide by N) is not 0, this is the real number
  \<open>50 + 10 * (pele_raw - mean) / sqrt variance\<close>. When the returned values are all the
  same (one row, or identical rows), \<open>pele_100\<close> is exactly 50 for every row.
\<close>

theorem pele_100_standardization:
  assumes "compute_pele df group_by True weights = Inr out"
  shows "(\<forall>r\<in>set out. pele_100 r = Some (std_score (map pele_raw out) (pele_raw r)))
    \<and> (\<forall>rs. map pele_raw out = map F rs \<and> population_variance rs \<noteq> 0 \<longrightarrow>
          (\<forall>i<length out. pele_100 (out ! i) =
             Some (F (50 + 10 * ((rs ! i - population_mean rs) / sqrt (population_variance rs))))))
    \<and> ((\<exists>v. set (map pele_raw out) \<subseteq> {v}) \<longrightarrow> (\<forall>r\<in>set out. pele_100 r = Some (F 50)))"
proof -
  from compute_pele_standardized[OF assms]
  obtain t where t: "out = add_pele_100 t \<or> out = sort_values (add_pele_100 t)" ..
  have m: "mset out = mset (add_pele_100 t)"
    using t by (auto simp: mset_sort_values)
  then have "mset (map pele_raw out) = mset (map pele_raw t)"
    by (metis add_pele_100_raw mset_map)
  then have s: "std_score (map pele_raw t) v = std_score (map pele_raw out) v" for v
    by (rule std_score_mset[symmetric])
  have mem: "r \<in> set (add_pele_100 t)" if "r \<in> set out" for r
    using that m by (metis set_mset_mset)
  have a: "pele_100 r = Some (std_score (map pele_raw out) (pele_raw r))" if "r \<in> set out" for r
    using add_pele_100_score[OF mem[OF that]] by (simp add: s)
  have b: "pele_100 (out ! i) =
      Some (F (50 + 10 * ((rs ! i - population_mean rs) / sqrt (population_variance rs))))"
    if rs: "map pele_raw out = map F rs" "population_variance rs \<noteq> 0" and i: "i < length out"
    for rs i
  proof -
    have l: "length rs = length out" using rs(1) by (metis length_map)
    then have ne: "rs \<noteq> []" using i by auto
    have "pele_raw (out ! i) = F (rs ! i)"
      using rs(1) i l by (metis nth_map)
    then show ?thesis
      using a[of "out ! i"] i rs std_score_finite[OF ne rs(2)] by simp
  qed
  have c: "pele_100 r = Some (F 50)" if "set (map pele_raw out) \<subseteq> {v}" "r \<in> set out" for v r
  proof -
    have "map pele_raw out = replicate (length (map pele_raw out)) v"
      by (rule constant_list[OF that(1)])
    then have "pd_std0 (map pele_raw out) = F 0 \<or> pd_std0 (map pele_raw out) = NaN"
      using pd_std0_constant by metis
    then show ?thesis
      using a[OF that(2)] by (simp add: std_score_degenerate)
  qed
  show ?thesis
    using a b c by blast
qed

lemma two_raw:
  "map_sum id (map pele_raw) (compute_pele df_two None True None) = Inr [F (7 / 10), F 0]"
proof -
  have v: "set required \<subseteq> set (columns df_two)" by (simp add: df_two_def)
  show ?thesis
    by (simp add: compute_pele_row_level[OF v])
      (simp add: df_two_def mk_row_def safe_def avg_minutes_def minutes_multiplier_def
        offensive_component_def defensive_component_def rate_def per90_def
        weights_of_def default_weights_def)
qed

theorem pele_100_standardization_witness:
  "\<exists>out. compute_pele df_two None True None = Inr out
     \<and> map pele_raw out = map F [7 / 10, 0]
     \<and> population_variance [7 / 10, 0] \<noteq> 0
     \<and> map pele_100 out = [Some (F 60), Some (F 40)]"
proof -
  have v: "set required \<subseteq> set (columns df_two)" by (simp add: df_two_def)
  obtain out where out: "compute_pele df_two None True None = Inr out"
    using compute_pele_row_level[OF v] by blast
  then have raw: "map pele_raw out = map F [7 / 10, 0]"
    using two_raw by simp
  then have len: "length out = 2" by (metis length_map length_Cons list.size(3) Suc_1 One_nat_def)
  have var: "population_variance [7 / 10, 0] = 49 / 400"
    by (simp add: population_variance_def population_mean_def power2_eq_square)
  have sq: "sqrt (49 / 400) = 7 / 20"
    by (rule real_sqrt_unique) (simp_all add: power2_eq_square)
  have mu: "population_mean [7 / 10, 0] = 7 / 20"
    by (simp add: population_mean_def)
  have nz: "population_variance [7 / 10, 0] \<noteq> 0" using var by simp
  note w = pele_100_standardization[OF out, THEN conjunct2, THEN conjunct1, rule_format,
      OF conjI[OF raw nz]]
  have "pele_100 (out ! 0) = Some (F 60)" "pele_100 (out ! 1) = Some (F 40)"
    using w[of 0] w[of 1] len by (simp_all add: var sq mu)
  then have "map pele_100 out = [Some (F 60), Some (F 40)]"
    using len by (cases out; simp; case_tac list; simp)
  then show ?thesis
    using out raw var by auto
qed

section \<open>The grouped branch in closed form\<close>

lemma np_average_eq:
  "np_average grp col = (if weights_ok grp then Inr (pct_avg grp col) else Inl ZeroDivisionError)"
  by (simp add: np_average_def weights_ok_def pct_avg_def split: option.splits)

lemma collect_map_if:
  "collect (map (\<lambda>x. if P x then Inr (g x) else Inl e) xs)
     = (if list_all P xs then Inr (map g xs) else Inl e)"
  by (induction xs) auto

lemma present_pct_valid:
  "set required \<subseteq> set (columns df) \<Longrightarrow> present_pct df = pct_cols"
  by (simp add: present_pct_def pct_cols_def required_def)

lemma rep_row_valid:
  assumes "set required \<subseteq> set (columns df)"
  shows "rep_row gc (present df) (present_pct df) (with_name df gc) (rows df) k
    = (if weights_ok (group_rows gc (rows df) k) then Inr (rep_of df gc k)
       else Inl ZeroDivisionError)"
  unfolding rep_row_def rep_of_def Let_def present_pct_valid[OF assms]
  by (auto simp: np_average_eq pct_cols_def flat_lookup_def fun_eq_iff)

lemma aggregate_valid:
  assumes "set required \<subseteq> set (columns df)"
  shows "aggregate df gc =
     (case find (\<lambda>c. c \<notin> set (columns df)) gc of
        Some c \<Rightarrow> Inl (KeyError c)
      | None \<Rightarrow>
          (case find (\<lambda>c. 1 < count_list (sum_df_cols df gc) c) gc of
             Some c \<Rightarrow> Inl (ValueError (''Grouper for '' @ c @ '' not 1-dimensional''))
           | None \<Rightarrow>
               if list_all (\<lambda>k. weights_ok (group_rows gc (rows df) k)) (group_keys gc (rows df))
               then Inr \<lparr> columns = rep_columns df gc,
                          rows = map (rep_of df gc) (group_keys gc (rows df)) \<rparr>
               else Inl ZeroDivisionError))"
proof -
  have "rep_row gc (present df) (present_pct df) (with_name df gc) (rows df)
      = (\<lambda>k. if weights_ok (group_rows gc (rows df) k) then Inr (rep_of df gc k)
           else Inl ZeroDivisionError)"
    by (rule ext) (rule rep_row_valid[OF assms])
  then show ?thesis
    by (simp add: aggregate_def collect_map_if split: option.splits)
qed


lemma required_in_rep:
  assumes "set required \<subseteq> set (columns df)"
  shows "set required - {''player_id''} \<subseteq> set (rep_columns df gc)"
  using assms
  by (simp add: required_def rep_columns_def present_def present_pct_def agg_cols_def
      pct_cols_def)

lemma player_id_in_rep:
  "''player_id'' \<in> set (rep_columns df gc) \<longleftrightarrow> ''player_id'' \<in> set gc"
  by (simp add: rep_columns_def present_def present_pct_def agg_cols_def pct_cols_def)

lemma validate_rep:
  assumes "set required \<subseteq> set (columns df)"
  shows "validate \<lparr> columns = rep_columns df gc, rows = rs \<rparr>
    = (if ''player_id'' \<in> set gc then Inr ()
       else Inl (ValueError ''Missing required column: player_id''))"
proof (cases "''player_id'' \<in> set gc")
  case True
  have "set required \<subseteq> set (rep_columns df gc)"
    using required_in_rep[OF assms, of gc] True player_id_in_rep[of df gc] by auto
  then show ?thesis using True by (simp add: validate_ok)
next
  case False
  then have "''player_id'' \<notin> set (rep_columns df gc)" by (simp add: player_id_in_rep)
  then have "find (\<lambda>col. col \<notin> set (rep_columns df gc)) required = Some ''player_id''"
    by (simp add: required_def)
  then show ?thesis using False by (simp add: validate_def)
qed

lemma identity_in_rep:
  assumes "c \<in> set gc"
  shows "c \<in> set (identity_cols \<lparr> columns = rep_columns df gc, rows = rs \<rparr>)
     \<longleftrightarrow> c \<in> set identity_names"
  using assms by (auto simp: identity_cols_def identity_names_def rep_columns_def Let_def)

lemma idv_rep_of:
  assumes "c \<in> set gc" "c \<in> set identity_names"
  shows "idv (rep_of df gc k) c = flat_lookup (zip gc k) c"
  using assms by (auto simp: rep_of_def Let_def with_name_def identity_names_def)

lemma flat_lookup_map:
  "c \<in> set ics \<Longrightarrow> flat_lookup (map (\<lambda>c. (c, f c)) ics) c = f c"
  by (induction ics) (auto simp: flat_lookup_def)

lemma select_result_rep:
  assumes "find (\<lambda>c. c \<notin> set identity_names) gc = None"
  shows "select_result gc (identity_cols \<lparr> columns = rep_columns df gc, rows = rs \<rparr>)
           (map (score_row w ref (identity_cols \<lparr> columns = rep_columns df gc, rows = rs \<rparr>))
              (map (rep_of df gc) ks))
         = Inr (map (group_out w df gc ref) ks)"
proof -
  let ?ics = "identity_cols \<lparr> columns = rep_columns df gc, rows = rs \<rparr>"
  from assms have idn: "\<forall>c\<in>set gc. c \<in> set identity_names"
    by (simp add: find_None_iff)
  then have "\<forall>c\<in>set gc. c \<in> set ?ics"
    using identity_in_rep by blast
  then have f: "find (\<lambda>c. c \<notin> set ?ics) gc = None"
    by (simp add: find_None_iff)
  have "(score_row w ref ?ics (rep_of df gc k))
          \<lparr>ident := map (\<lambda>c. (c, flat_lookup (ident (score_row w ref ?ics (rep_of df gc k))) c)) gc\<rparr>
        = group_out w df gc ref k" for k
  proof -
    have "map (\<lambda>c. (c, flat_lookup (map (\<lambda>c. (c, idv (rep_of df gc k) c)) ?ics) c)) gc
        = map (\<lambda>c. (c, flat_lookup (zip gc k) c)) gc"
      using idn \<open>\<forall>c\<in>set gc. c \<in> set ?ics\<close>
      by (intro map_cong refl) (simp add: flat_lookup_map idv_rep_of)
    then show ?thesis
      by (simp add: group_out_def score_row_def Let_def)
  qed
  then show ?thesis
    by (simp add: select_result_def f comp_def)
qed

lemma select_result_bad:
  assumes "find (\<lambda>c. c \<notin> set identity_names) gc = Some c"
  shows "select_result gc (identity_cols \<lparr> columns = rep_columns df gc, rows = rs \<rparr>) tmp
         = Inl (KeyError c)"
proof -
  let ?ics = "identity_cols \<lparr> columns = rep_columns df gc, rows = rs \<rparr>"
  have "find (\<lambda>c. c \<notin> set ?ics) gc = find (\<lambda>c. c \<notin> set identity_names) gc"
    by (rule find_cong) (simp_all add: identity_in_rep)
  then show ?thesis using assms by (simp add: select_result_def)
qed

lemma grouped_valid:
  assumes v: "set required \<subseteq> set (columns df)"
  shows "grouped w df gc standardize =
     (case find (\<lambda>c. c \<notin> set (columns df)) gc of
        Some c \<Rightarrow> Inl (KeyError c)
      | None \<Rightarrow>
          (case find (\<lambda>c. 1 < count_list (sum_df_cols df gc) c) gc of
             Some c \<Rightarrow> Inl (ValueError (''Grouper for '' @ c @ '' not 1-dimensional''))
           | None \<Rightarrow>
               if \<not> list_all (\<lambda>k. weights_ok (group_rows gc (rows df) k)) (group_keys gc (rows df))
               then Inl ZeroDivisionError
               else if ''player_id'' \<notin> set gc
               then Inl (ValueError ''Missing required column: player_id'')
               else (case find (\<lambda>c. c \<notin> set identity_names) gc of
                       Some c \<Rightarrow> Inl (KeyError c)
                     | None \<Rightarrow>
                         Inr (sort_values
                           ((if standardize then add_pele_100 else id)
                             ((if ''player_name'' \<in> set (columns df) \<and> ''player_name'' \<notin> set gc
                               then merge_names gc (rows df) else id)
                               (map (group_out w df gc
                                      (avg_minutes (map (rep_of df gc) (group_keys gc (rows df)))))
                                  (group_keys gc (rows df)))))))))"
proof -
  let ?ks = "group_keys gc (rows df)"
  let ?rep = "\<lparr> columns = rep_columns df gc, rows = map (rep_of df gc) ?ks \<rparr>"
  have rl: "''player_id'' \<in> set gc \<Longrightarrow>
      row_level w ?rep = Inr (map (score_row w (avg_minutes (map (rep_of df gc) ?ks))
          (identity_cols ?rep)) (map (rep_of df gc) ?ks))"
    by (simp add: row_level_def validate_rep[OF v])
  have rl': "''player_id'' \<notin> set gc \<Longrightarrow>
      row_level w ?rep = Inl (ValueError ''Missing required column: player_id'')"
    by (simp add: row_level_def validate_rep[OF v])
  show ?thesis
    unfolding grouped_def aggregate_valid[OF v]
    by (auto simp: rl rl' select_result_rep[unfolded map_map] select_result_bad Let_def
        split: option.splits)
qed

section \<open>Scores do not depend on identity columns\<close>

lemma map_eq_all2: "map f xs = map g ys \<longleftrightarrow> list_all2 (\<lambda>x y. f x = g y) xs ys"
proof (induction xs arbitrary: ys)
  case Nil
  then show ?case by auto
next
  case (Cons x xs)
  then show ?case by (cases ys) auto
qed

lemma scores_ident [simp]: "scores (t\<lparr>ident := i\<rparr>) = scores t"
  by (simp add: scores_def)

lemma scores_pele_raw: "scores a = scores b \<Longrightarrow> pele_raw a = pele_raw b"
  by (simp add: scores_def)

lemma scores_merge_names [simp]: "map scores (merge_names gc rs t) = map scores t"
  by (simp add: merge_names_def comp_def)

lemma scores_nth:
  assumes "map scores t = map scores t'" "i < length t"
  shows "scores (t ! i) = scores (t' ! i)"
proof -
  have "map scores t ! i = map scores t' ! i" by (simp only: assms(1))
  moreover have "i < length t'" using assms by (metis length_map)
  ultimately show ?thesis using assms(2) by simp
qed

lemma scores_add_pele_100:
  assumes "map scores t = map scores t'"
  shows "map scores (add_pele_100 t) = map scores (add_pele_100 t')"
proof -
  have l: "length t = length t'" using assms by (metis length_map)
  have r: "map pele_raw t = map pele_raw t'"
  proof (rule nth_equalityI)
    show "length (map pele_raw t) = length (map pele_raw t')" using l by simp
  next
    fix i assume "i < length (map pele_raw t)"
    then have i: "i < length t" "i < length t'" using l by simp_all
    from scores_nth[OF assms i(1)] have "pele_raw (t ! i) = pele_raw (t' ! i)"
      by (rule scores_pele_raw)
    then show "map pele_raw t ! i = map pele_raw t' ! i" using i by simp
  qed
  show ?thesis
  proof (rule nth_equalityI)
    show "length (map scores (add_pele_100 t)) = length (map scores (add_pele_100 t'))"
      using l by simp
  next
    fix i assume "i < length (map scores (add_pele_100 t))"
    then have i: "i < length t" "i < length t'" using l by simp_all
    have s: "scores (t ! i) = scores (t' ! i)"
      by (rule scores_nth[OF assms i(1)])
    have "scores (add_pele_100 t ! i) = scores (add_pele_100 t' ! i)"
      using s unfolding scores_def add_pele_100_nth[OF i(1)] add_pele_100_nth[OF i(2)] r
      by simp
    then show "map scores (add_pele_100 t) ! i = map scores (add_pele_100 t') ! i"
      using i by simp
  qed
qed

lemma all2_insert_desc:
  assumes "scores x = scores y" "list_all2 (\<lambda>a b. scores a = scores b) xs ys"
  shows "list_all2 (\<lambda>a b. scores a = scores b) (insert_desc x xs) (insert_desc y ys)"
  using assms(2)
proof (induction rule: list_all2_induct)
  case Nil
  show ?case
    unfolding insert_desc.simps by (intro list.rel_intros assms(1))
next
  case (Cons a as b bs)
  have "pele_raw a = pele_raw b" "pele_raw x = pele_raw y"
    by (rule scores_pele_raw[OF Cons.hyps(1)], rule scores_pele_raw[OF assms(1)])
  then have c: "fl_le (pele_raw a) (pele_raw x) = fl_le (pele_raw b) (pele_raw y)"
    by (simp only:)
  show ?case
  proof (cases "fl_le (pele_raw b) (pele_raw y)")
    case True
    have "insert_desc x (a # as) = x # a # as" "insert_desc y (b # bs) = y # b # bs"
      unfolding insert_desc.simps c using True by (simp_all only: if_True)
    then show ?thesis
      by (simp only:) (intro list.rel_intros assms(1) Cons.hyps)
  next
    case False
    have "insert_desc x (a # as) = a # insert_desc x as"
      "insert_desc y (b # bs) = b # insert_desc y bs"
      unfolding insert_desc.simps c using False by (simp_all only: if_False)
    then show ?thesis
      by (simp only:) (intro list.rel_intros Cons.hyps(1) Cons.IH)
  qed
qed


lemma all2_filter_raw:
  assumes "list_all2 (\<lambda>a b. scores a = scores b) xs ys"
  shows "list_all2 (\<lambda>a b. scores a = scores b) (filter (\<lambda>r. P (pele_raw r)) xs)
      (filter (\<lambda>r. P (pele_raw r)) ys)"
  using assms
proof (induction rule: list_all2_induct)
  case Nil
  show ?case unfolding filter.simps by (rule list.rel_intros)
next
  case (Cons a as b bs)
  have c: "P (pele_raw a) = P (pele_raw b)"
    using scores_pele_raw[OF Cons.hyps(1)] by (simp only:)
  show ?case
  proof (cases "P (pele_raw b)")
    case True
    then show ?thesis
      unfolding filter.simps c by (simp only: if_True) (intro list.rel_intros Cons.hyps(1) Cons.IH)
  next
    case False
    then show ?thesis
      unfolding filter.simps c by (simp only: if_False) (rule Cons.IH)
  qed
qed

lemma all2_foldr_insert_desc:
  assumes "list_all2 (\<lambda>a b. scores a = scores b) us vs"
  shows "list_all2 (\<lambda>a b. scores a = scores b) (foldr insert_desc us []) (foldr insert_desc vs [])"
  using assms
proof (induction rule: list_all2_induct)
  case Nil
  show ?case unfolding foldr.simps id_apply by (rule list.rel_intros)
next
  case (Cons a as b bs)
  show ?case
    unfolding foldr.simps comp_apply by (rule all2_insert_desc[OF Cons.hyps(1) Cons.IH])
qed

lemma all2_sort_values:
  assumes "list_all2 (\<lambda>a b. scores a = scores b) xs ys"
  shows "list_all2 (\<lambda>a b. scores a = scores b) (sort_values xs) (sort_values ys)"
  unfolding sort_values_def
  by (intro list_all2_appendI all2_foldr_insert_desc
      all2_filter_raw[OF assms, of "\<lambda>v. v \<noteq> NaN"] all2_filter_raw[OF assms, of "\<lambda>v. v = NaN"])

lemma scores_sort_values:
  "map scores t = map scores t' \<Longrightarrow> map scores (sort_values t) = map scores (sort_values t')"
  unfolding map_eq_all2 by (rule all2_sort_values)


lemma summed_in_present:
  assumes "set required \<subseteq> set (columns df)" "c \<in> set (''minutes'' # rate_cols)"
  shows "c \<in> set (present df)"
proof -
  have "set (''minutes'' # rate_cols) \<subseteq> set required"
    by (simp add: rate_cols_def required_def)
  moreover have "set (''minutes'' # rate_cols) \<subseteq> set agg_cols"
    by (simp add: rate_cols_def agg_cols_def)
  ultimately show ?thesis
    using assms unfolding present_def by auto
qed

lemma pct_agg_disjoint: "list_all (\<lambda>c. c \<notin> set agg_cols) pct_cols"
  by code_simp

lemma pct_not_present: "c \<in> set pct_cols \<Longrightarrow> c \<notin> set (present df)"
  using pct_agg_disjoint unfolding list_all_iff present_def by simp

lemma num_rep_of_sum:
  assumes "set required \<subseteq> set (columns df)" "c \<in> set (''minutes'' # rate_cols)"
  shows "num (rep_of df gc k) c = Some (agg_sum (group_rows gc (rows df) k) c)"
  using summed_in_present[OF assms] by (simp add: rep_of_def Let_def)

lemma num_rep_of_pct:
  assumes "c \<in> set pct_cols"
  shows "num (rep_of df gc k) c = pct_avg (group_rows gc (rows df) k) c"
  using pct_not_present[OF assms] assms by (simp add: rep_of_def Let_def)

lemma rate_cong:
  assumes "num r ''minutes'' = num r' ''minutes''" "num r c = num r' c"
  shows "rate r c = rate r' c"
  unfolding rate_def per90_def assms ..

lemma score_cong:
  assumes "\<forall>c\<in>set (''minutes'' # rate_cols @ pct_cols). num r c = num r' c"
  shows "scores (score_row w ref ics r) = scores (score_row w ref ics' r')"
proof -
  have m: "num r ''minutes'' = num r' ''minutes''"
    using assms by simp
  have p: "num r ''pass_completion_pct'' = num r' ''pass_completion_pct''"
    "num r ''dribble_success_pct'' = num r' ''dribble_success_pct''"
    using assms by (simp_all add: pct_cols_def)
  have a: "\<forall>c\<in>set rate_cols. rate r c = rate r' c"
    using assms m by (auto intro: rate_cong)
  then have e: "list_all (\<lambda>c. rate r c = rate r' c) rate_cols"
    by (simp only: list_all_iff)
  have rd: "rates_df r = rates_df r'"
    unfolding rates_df_def using a by (intro map_cong refl) simp
  have oc: "offensive_component w r = offensive_component w r'"
    unfolding offensive_component_def p using e unfolding rate_cols_def list.pred_inject
    by (elim conjE) (simp only:)
  have dc: "defensive_component w r = defensive_component w r'"
    unfolding defensive_component_def using e unfolding rate_cols_def list.pred_inject
    by (elim conjE) (simp only:)
  show ?thesis
    unfolding scores_def score_row_sel rd oc dc m ..
qed


lemma count_list_filter:
  "count_list (filter P xs) c = (if P c then count_list xs c else 0)"
  by (induction xs) auto

lemma validate_missing:
  assumes "\<not> set required \<subseteq> set (columns df)"
  shows "\<exists>col. col \<in> set required \<and> col \<notin> set (columns df)
     \<and> validate df = Inl (ValueError (''Missing required column: '' @ col))"
proof -
  from assms obtain c where "c \<in> set required" "c \<notin> set (columns df)" by auto
  then have "find (\<lambda>col. col \<notin> set (columns df)) required \<noteq> None"
    by (auto simp: find_None_iff)
  then obtain col where f: "find (\<lambda>col. col \<notin> set (columns df)) required = Some col"
    by auto
  then have "col \<in> set required" "col \<notin> set (columns df)"
    by (auto simp: find_Some_iff)
  then show ?thesis using f by (auto simp: validate_def)
qed

lemma compute_pele_missing:
  assumes "\<not> set required \<subseteq> set (columns df)"
  shows "\<exists>col. col \<in> set required \<and> col \<notin> set (columns df)
     \<and> compute_pele df group_by standardize weights
          = Inl (ValueError (''Missing required column: '' @ col))"
proof -
  from validate_missing[OF assms] obtain col where c: "col \<in> set required"
    "col \<notin> set (columns df)"
    "validate df = Inl (ValueError (''Missing required column: '' @ col))" by blast
  have "compute_pele df group_by standardize weights
      = Inl (ValueError (''Missing required column: '' @ col))"
    by (simp add: compute_pele_def row_level_def c(3))
  then show ?thesis using c by blast
qed

lemma compute_pele_grouped:
  assumes "set required \<subseteq> set (columns df)"
  shows "compute_pele df (Some (g # gs)) standardize weights
     = grouped (weights_of weights) df (g # gs) standardize"
  by (simp add: compute_pele_def row_level_ok[OF assms] weights_of_def)

lemma compute_pele_empty_group:
  assumes "set required \<subseteq> set (columns df)"
  shows "compute_pele df (Some []) standardize weights
     = compute_pele df None standardize weights"
  by (simp add: compute_pele_def row_level_ok[OF assms])

section \<open>Validation and extra columns\<close>

lemma extra_find_columns:
  assumes "set gc \<inter> set extra = {}"
  shows "find (\<lambda>c. c \<notin> set (columns (df\<lparr>columns := columns df @ extra\<rparr>))) gc
       = find (\<lambda>c. c \<notin> set (columns df)) gc"
  using assms by (intro find_cong refl) auto

lemma extra_count:
  assumes "set gc \<inter> set extra = {}" "c \<in> set gc"
  shows "count_list (sum_df_cols (df\<lparr>columns := columns df @ extra\<rparr>) gc) c
       = count_list (sum_df_cols df gc) c"
proof -
  have m: "c \<in> set (columns df @ extra) \<longleftrightarrow> c \<in> set (columns df)"
    using assms by auto
  have "count_list (extra_cols (df\<lparr>columns := columns df @ extra\<rparr>)) c
      = count_list (extra_cols df) c"
    using m by (cases "c = ''player_name''") (simp_all add: extra_cols_def)
  then show ?thesis
    using m by (simp add: sum_df_cols_def present_def present_pct_def count_list_filter)
qed

lemma extra_find_count:
  assumes "set gc \<inter> set extra = {}"
  shows "find (\<lambda>c. 1 < count_list (sum_df_cols (df\<lparr>columns := columns df @ extra\<rparr>) gc) c) gc
       = find (\<lambda>c. 1 < count_list (sum_df_cols df gc) c) gc"
  using extra_count[OF assms] by (intro find_cong refl) simp

lemma extra_valid:
  "set required \<subseteq> set (columns df) \<Longrightarrow>
   set required \<subseteq> set (columns (df\<lparr>columns := columns df @ extra\<rparr>))"
  by auto

lemma rep_of_scores:
  assumes "set required \<subseteq> set (columns df)" "set required \<subseteq> set (columns df')"
    "rows df' = rows df"
  shows "scores (score_row w ref ics (rep_of df' gc k)) = scores (score_row w ref ics' (rep_of df gc k))"
proof (rule score_cong, rule ballI)
  fix c assume "c \<in> set (''minutes'' # rate_cols @ pct_cols)"
  then consider "c \<in> set (''minutes'' # rate_cols)" | "c \<in> set pct_cols" by auto
  then show "num (rep_of df' gc k) c = num (rep_of df gc k) c"
  proof cases
    case 1
    show ?thesis
      unfolding num_rep_of_sum[OF assms(1) 1] num_rep_of_sum[OF assms(2) 1] assms(3) ..
  next
    case 2
    show ?thesis
      unfolding num_rep_of_pct[OF 2] assms(3) ..
  qed
qed

lemma rep_of_minutes:
  assumes "set required \<subseteq> set (columns df)" "set required \<subseteq> set (columns df')"
    "rows df' = rows df"
  shows "avg_minutes (map (rep_of df' gc) ks) = avg_minutes (map (rep_of df gc) ks)"
proof -
  have "num (rep_of df' gc k) ''minutes'' = num (rep_of df gc k) ''minutes''" for k
    unfolding num_rep_of_sum[OF assms(1), of "''minutes''", simplified]
      num_rep_of_sum[OF assms(2), of "''minutes''", simplified] assms(3) ..
  then show ?thesis
    by (simp add: avg_minutes_def comp_def)
qed

lemma group_out_scores:
  assumes "set required \<subseteq> set (columns df)" "set required \<subseteq> set (columns df')"
    "rows df' = rows df"
  shows "map scores (map (group_out w df' gc ref) ks) = map scores (map (group_out w df gc ref) ks)"
  by (simp add: group_out_def comp_def rep_of_scores[OF assms])


lemma grouped_extra:
  assumes v: "set required \<subseteq> set (columns df)" and d: "set gc \<inter> set extra = {}"
  shows "map_sum id (map scores) (grouped w (df\<lparr>columns := columns df @ extra\<rparr>) gc standardize)
       = map_sum id (map scores) (grouped w df gc standardize)"
proof -
  let ?df' = "df\<lparr>columns := columns df @ extra\<rparr>"
  let ?ks = "group_keys gc (rows df)"
  let ?ref = "avg_minutes (map (rep_of df gc) ?ks)"
  have v': "set required \<subseteq> set (columns ?df')" by (rule extra_valid[OF v])
  have r: "rows ?df' = rows df" by simp
  have ref: "avg_minutes (map (rep_of ?df' gc) ?ks) = ?ref"
    by (rule rep_of_minutes[OF v v' r])
  have 1: "map scores (map (group_out w ?df' gc ?ref) ?ks)
      = map scores (map (group_out w df gc ?ref) ?ks)"
    by (rule group_out_scores[OF v v' r])
  have 2: "map scores ((if b' then merge_names gc (rows df) else id) (map (group_out w ?df' gc ?ref) ?ks))
      = map scores ((if b then merge_names gc (rows df) else id) (map (group_out w df gc ?ref) ?ks))"
    for b b'
    using 1 by (cases b; cases b'; simp only: if_True if_False scores_merge_names id_apply)
  have 3: "map scores ((if standardize then add_pele_100 else id)
        ((if b' then merge_names gc (rows df) else id) (map (group_out w ?df' gc ?ref) ?ks)))
      = map scores ((if standardize then add_pele_100 else id)
        ((if b then merge_names gc (rows df) else id) (map (group_out w df gc ?ref) ?ks)))"
    for b b'
    using scores_add_pele_100[OF 2[of b' b]] 2[of b' b]
    by (cases standardize; simp only: if_True if_False id_apply)
  have final: "map scores (sort_values ((if standardize then add_pele_100 else id)
        ((if b' then merge_names gc (rows df) else id) (map (group_out w ?df' gc ?ref) ?ks))))
      = map scores (sort_values ((if standardize then add_pele_100 else id)
        ((if b then merge_names gc (rows df) else id) (map (group_out w df gc ?ref) ?ks))))"
    for b b'
    by (rule scores_sort_values[OF 3])
  show ?thesis
    unfolding grouped_valid[OF v] grouped_valid[OF v'] extra_find_columns[OF d]
      extra_find_count[OF d] r ref
    using final[of True True] final[of True False] final[of False True] final[of False False]
    by (cases standardize) (simp_all split: option.splits)
qed

lemma row_level_extra:
  assumes v: "set required \<subseteq> set (columns df)"
  shows "map_sum id (map scores) (compute_pele (df\<lparr>columns := columns df @ extra\<rparr>) None standardize weights)
       = map_sum id (map scores) (compute_pele df None standardize weights)"
proof -
  let ?df' = "df\<lparr>columns := columns df @ extra\<rparr>"
  have v': "set required \<subseteq> set (columns ?df')" by (rule extra_valid[OF v])
  have 1: "map scores (map (score_row w ref ics') (rows df))
      = map scores (map (score_row w ref ics) (rows df))" for w ref ics ics'
    by (simp add: comp_def score_cong)
  have 2: "map scores ((if standardize then add_pele_100 else id) (map (score_row w ref ics') (rows df)))
      = map scores ((if standardize then add_pele_100 else id) (map (score_row w ref ics) (rows df)))"
    for w ref ics ics'
    using scores_add_pele_100[OF 1[of w ref ics' ics]] 1[of w ref ics' ics]
    by (cases standardize; simp only: if_True if_False id_apply)
  show ?thesis
    unfolding compute_pele_row_level[OF v] compute_pele_row_level[OF v']
    using 2 by (cases standardize) simp_all
qed

lemma compute_pele_extra:
  assumes v: "set required \<subseteq> set (columns df)"
    and d: "\<forall>g. group_by = Some g \<longrightarrow> set g \<inter> set extra = {}"
  shows "map_sum id (map scores) (compute_pele (df\<lparr>columns := columns df @ extra\<rparr>) group_by standardize weights)
       = map_sum id (map scores) (compute_pele df group_by standardize weights)"
proof (cases group_by)
  case None
  then show ?thesis by (simp only: row_level_extra[OF v])
next
  case (Some g)
  show ?thesis
  proof (cases g)
    case Nil
    show ?thesis
      unfolding Some Nil compute_pele_empty_group[OF v]
        compute_pele_empty_group[OF extra_valid[OF v]]
      by (rule row_level_extra[OF v])
  next
    case (Cons a as)
    have "set (a # as) \<inter> set extra = {}" using d Some Cons by simp
    then show ?thesis
      unfolding Some Cons compute_pele_grouped[OF v] compute_pele_grouped[OF extra_valid[OF v]]
      by (rule grouped_extra[OF v])
  qed
qed

text \<open>
  C7. When a required column is missing from the input table, \<open>compute_pele\<close> raises
  \<open>ValueError("Missing required column: col")\<close> for a required column \<open>col\<close> that the
  table does not have, whatever the other arguments are: the result is the error and no
  table. (The function works on a copy and the model is a pure function, so the input
  table is the same afterwards.) When the table has all required columns, columns added
  to it that \<open>group_by\<close> does not name change neither the scores, the per-90 rates and
  \<open>pele_100\<close> of the returned rows nor an error.
\<close>

theorem missing_column_rejected_extra_ignored:
  "(\<forall>df group_by standardize weights.
      \<not> set required \<subseteq> set (columns df) \<longrightarrow>
      (\<exists>col. col \<in> set required \<and> col \<notin> set (columns df)
         \<and> compute_pele df group_by standardize weights
              = Inl (ValueError (''Missing required column: '' @ col))))
   \<and> (\<forall>df extra group_by standardize weights.
        set required \<subseteq> set (columns df)
        \<and> (\<forall>g. group_by = Some g \<longrightarrow> set g \<inter> set extra = {}) \<longrightarrow>
        map_sum id (map scores)
          (compute_pele (df\<lparr>columns := columns df @ extra\<rparr>) group_by standardize weights)
        = map_sum id (map scores) (compute_pele df group_by standardize weights))"
  using compute_pele_missing compute_pele_extra by blast

theorem missing_column_rejected_extra_ignored_witness:
  "\<not> set required \<subseteq> set (columns df_short)
   \<and> (\<exists>col. col \<in> set required \<and> col \<notin> set (columns df_short)
         \<and> compute_pele df_short (Some [''player_id'']) True None
              = Inl (ValueError (''Missing required column: '' @ col)))
   \<and> set required \<subseteq> set (columns df_solo)
   \<and> set [''player_id''] \<inter> set [''team_id'', ''position''] = {}
   \<and> map_sum id (map scores)
         (compute_pele (df_solo\<lparr>columns := columns df_solo @ [''team_id'', ''position'']\<rparr>)
            (Some [''player_id'']) True None)
       = map_sum id (map scores) (compute_pele df_solo (Some [''player_id'']) True None)"
proof -
  have a: "\<not> set required \<subseteq> set (columns df_short)"
    by (simp add: df_short_def required_def)
  have b: "set [''player_id''] \<inter> set [''team_id'', ''position''] = {}"
    by simp
  then have c: "\<forall>g. Some [''player_id''] = Some g \<longrightarrow> set g \<inter> set [''team_id'', ''position''] = {}"
    by simp
  note t = missing_column_rejected_extra_ignored
  from t[THEN conjunct1, rule_format, OF a, of "Some [''player_id'']" True None]
    t[THEN conjunct2, rule_format, OF conjI[OF valid_examples(2) c], of True None]
  show ?thesis
    using a b valid_examples(2) by blast
qed

section \<open>Group keys of identity columns\<close>

lemma key_cols_not_stats:
  "list_all (\<lambda>c. c \<notin> set agg_cols \<and> c \<notin> set pct_cols \<and> c \<noteq> ''player_name''
      \<and> c \<in> set identity_names)
     [''player_id'', ''season'', ''team_id'']"
  by code_simp

lemma count_list_one: "distinct xs \<Longrightarrow> x \<in> set xs \<Longrightarrow> count_list xs x = 1"
  by (induction xs) (auto simp: count_list_0_iff)

lemma count_list_zero: "x \<notin> set xs \<Longrightarrow> count_list xs x = 0"
  by (simp add: count_list_0_iff)

lemma good_group_finds:
  assumes "distinct gc" "set gc \<subseteq> set [''player_id'', ''season'', ''team_id'']"
    "set gc \<subseteq> set (columns df)"
  shows "find (\<lambda>c. c \<notin> set (columns df)) gc = None"
    "find (\<lambda>c. 1 < count_list (sum_df_cols df gc) c) gc = None"
    "find (\<lambda>c. c \<notin> set identity_names) gc = None"
proof -
  show "find (\<lambda>c. c \<notin> set (columns df)) gc = None"
    using assms(3) by (auto simp: find_None_iff)
  have k: "c \<notin> set agg_cols \<and> c \<notin> set pct_cols \<and> c \<noteq> ''player_name''
      \<and> c \<in> set identity_names" if "c \<in> set gc" for c
    using key_cols_not_stats that assms(2) unfolding list_all_iff by blast
  have "count_list (sum_df_cols df gc) c = 1" if "c \<in> set gc" for c
  proof -
    have "c \<notin> set (present df)" "c \<notin> set (present_pct df)" "c \<notin> set (extra_cols df)"
      using k[OF that] by (auto simp: present_def present_pct_def extra_cols_def)
    then show ?thesis
      using count_list_one[OF assms(1) that]
      by (simp add: sum_df_cols_def count_list_zero)
  qed
  then show "find (\<lambda>c. 1 < count_list (sum_df_cols df gc) c) gc = None"
    by (auto simp: find_None_iff)
  show "find (\<lambda>c. c \<notin> set identity_names) gc = None"
    using k by (auto simp: find_None_iff)
qed

lemma grouped_good:
  assumes v: "set required \<subseteq> set (columns df)"
    and g: "distinct gc" "set gc \<subseteq> set [''player_id'', ''season'', ''team_id'']"
      "set gc \<subseteq> set (columns df)" "''player_id'' \<in> set gc"
  shows "grouped w df gc standardize =
     (if list_all (\<lambda>k. weights_ok (group_rows gc (rows df) k)) (group_keys gc (rows df))
      then Inr (sort_values
             ((if standardize then add_pele_100 else id)
               ((if ''player_name'' \<in> set (columns df) then merge_names gc (rows df) else id)
                 (map (group_out w df gc
                        (avg_minutes (map (rep_of df gc) (group_keys gc (rows df)))))
                    (group_keys gc (rows df))))))
      else Inl ZeroDivisionError)"
proof -
  have "''player_name'' \<notin> set gc" using g(2) by auto
  then show ?thesis
    unfolding grouped_valid[OF v] good_group_finds[OF g(1,2,3)]
    using g(4) by simp
qed

lemma sort_values_single: "sort_values [t] = [t]"
  by (cases "pele_raw t = NaN") (simp_all add: sort_values_def)


section \<open>Names of groups\<close>

lemma df_names_valid: "set required \<subseteq> set (columns df_names)"
  by (auto simp: df_names_def)

lemma df_names_facts:
  "''player_name'' \<in> set (columns df_names)"
  "group_keys [''player_id''] (rows df_names) = [[Some ''P1'']]"
  "group_rows [''player_id''] (rows df_names) [Some ''P1''] = rows df_names"
  "weights_ok (rows df_names)"
  "names_of (rows df_names) = [Some ''Ann'', Some ''Bob'', Some ''Bob'']"
  "first_name [''player_id''] (rows df_names) [Some ''P1''] = Some ''Ann''"
  by (simp_all add: df_names_def group_keys_def group_rows_def key_of_def mk_row_def
      sort_keys_def weights_ok_def avg_weight_def names_of_def first_name_def)

lemma name_agg_example: "name_agg [Some ''Ann'', Some ''Bob'', Some ''Bob''] = Some ''Bob''"
  by code_simp

text \<open>
  C3. The claim has the \<open>player_name\<close> of a group's output row be the most frequent
  name among the group's rows. The code computes that name (\<open>name_agg\<close>) into \<open>rep\<close>,
  drops it when it selects the columns of \<open>result\<close>, and merges \<open>names\<close>, the name of
  the group's first row that has one. For three rows of player P1 named "Ann", "Bob",
  "Bob" the returned \<open>player_name\<close> is "Ann"; the most frequent name, which \<open>rep\<close>
  holds, is "Bob".
\<close>

theorem player_name_is_first_not_mode:
  "map_sum id (map ident) (compute_pele df_names (Some [''player_id'']) False None)
     = Inr [[(''player_id'', Some ''P1''), (''player_name'', Some ''Ann'')]]
   \<and> name_agg (names_of (rows df_names)) = Some ''Bob''
   \<and> map_sum id (\<lambda>rep. names_of (rows rep)) (aggregate df_names [''player_id''])
     = Inr [Some ''Bob'']"
proof (intro conjI)
  note f = df_names_facts
  have g: "distinct [''player_id'']"
    "set [''player_id''] \<subseteq> set [''player_id'', ''season'', ''team_id'']"
    "set [''player_id''] \<subseteq> set (columns df_names)" "''player_id'' \<in> set [''player_id'']"
    using df_names_valid by (simp_all add: required_def)
  show "map_sum id (map ident) (compute_pele df_names (Some [''player_id'']) False None)
     = Inr [[(''player_id'', Some ''P1''), (''player_name'', Some ''Ann'')]]"
    unfolding compute_pele_grouped[OF df_names_valid] grouped_good[OF df_names_valid g]
    by (simp add: f sort_values_single merge_names_def group_out_def flat_lookup_def)
  show "name_agg (names_of (rows df_names)) = Some ''Bob''"
    unfolding f(5) by (rule name_agg_example)
  have w: "with_name df_names [''player_id'']"
    using f(1) by (simp add: with_name_def sum_df_cols_def extra_cols_def)
  have "idv (rep_of df_names [''player_id''] [Some ''P1'']) ''player_name'' = Some ''Bob''"
    using w f(5) by (simp add: rep_of_def Let_def f(3) names_of_def name_agg_example)
  then show "map_sum id (\<lambda>rep. names_of (rows rep)) (aggregate df_names [''player_id''])
     = Inr [Some ''Bob'']"
    unfolding aggregate_valid[OF df_names_valid] good_group_finds[OF g(1,2,3)]
    by (simp add: f names_of_def)
qed

section \<open>Groups and their keys\<close>

lemma mset_insert_key: "mset (insert_key k ks) = add_mset k (mset ks)"
  by (induction ks) simp_all

lemma mset_sort_keys: "mset (sort_keys ks) = mset ks"
  unfolding sort_keys_def by (induction ks) (simp_all add: mset_insert_key)

lemma set_group_keys: "set (group_keys gc rs) = key_of gc ` set rs"
  unfolding group_keys_def using mset_sort_keys[of "remdups (map (key_of gc) rs)"]
  by (metis set_mset_mset set_remdups set_map)

lemma distinct_group_keys: "distinct (group_keys gc rs)"
  unfolding group_keys_def using mset_sort_keys[of "remdups (map (key_of gc) rs)"]
  by (metis distinct_remdups mset_eq_imp_distinct_iff)

lemma length_group_key: "k \<in> set (group_keys gc rs) \<Longrightarrow> length k = length gc"
  unfolding set_group_keys by (auto simp: key_of_def)

lemma remdups_constant: "xs \<noteq> [] \<Longrightarrow> set xs \<subseteq> {k} \<Longrightarrow> remdups xs = [k]"
proof (induction xs)
  case Nil
  then show ?case by simp
next
  case (Cons x xs)
  show ?case
  proof (cases "xs = []")
    case True
    then show ?thesis using Cons.prems by simp
  next
    case False
    then have "k \<in> set xs" using Cons.prems(2) by (cases xs) auto
    then show ?thesis using Cons False by auto
  qed
qed

lemma group_keys_isolated:
  assumes "k \<in> key_of gc ` set rs"
  shows "group_keys gc (group_rows gc rs k) = [k]"
proof -
  have "map (key_of gc) (group_rows gc rs k) \<noteq> []"
    using assms by (auto simp: group_rows_def filter_empty_conv)
  moreover have "set (map (key_of gc) (group_rows gc rs k)) \<subseteq> {k}"
    by (auto simp: group_rows_def)
  ultimately have "remdups (map (key_of gc) (group_rows gc rs k)) = [k]"
    by (rule remdups_constant)
  then show ?thesis by (simp add: group_keys_def sort_keys_def)
qed

lemma group_rows_idem: "group_rows gc (group_rows gc rs k) k = group_rows gc rs k"
  by (simp add: group_rows_def)

lemma flat_lookup_zip:
  assumes "distinct gc" "length k = length gc"
  shows "map (flat_lookup (zip gc k)) gc = k"
proof (rule nth_equalityI)
  show "length (map (flat_lookup (zip gc k)) gc) = length k" using assms by simp
next
  fix i assume "i < length (map (flat_lookup (zip gc k)) gc)"
  then have i: "i < length gc" by simp
  have "map_of (zip gc k) (gc ! i) = Some (k ! i)"
    using assms i by (intro map_of_zip_nth) simp_all
  then show "map (flat_lookup (zip gc k)) gc ! i = k ! i"
    using i by (simp add: flat_lookup_def)
qed

lemma key_of_rep_of:
  assumes "distinct gc" "set gc \<subseteq> set [''player_id'', ''season'', ''team_id'']"
    "length k = length gc"
  shows "key_of gc (rep_of df gc k) = k"
proof -
  have "c \<in> set identity_names" if "c \<in> set gc" for c
    using key_cols_not_stats that assms(2) unfolding list_all_iff by blast
  then have "map (idv (rep_of df gc k)) gc = map (flat_lookup (zip gc k)) gc"
    by (intro map_cong refl) (simp add: idv_rep_of)
  then show ?thesis
    unfolding key_of_def by (simp only: flat_lookup_zip[OF assms(1,3)])
qed

lemma group_key_of_group_out:
  assumes "distinct gc" "length k = length gc"
  shows "group_key_of gc (group_out w df gc ref k) = k"
proof -
  have "map (flat_lookup (map (\<lambda>c. (c, flat_lookup (zip gc k) c)) gc)) gc
      = map (flat_lookup (zip gc k)) gc"
    by (intro map_cong refl) (simp add: flat_lookup_map)
  then show ?thesis
    by (simp add: group_key_of_def group_out_def flat_lookup_zip[OF assms])
qed


lemma components_score_row:
  "components (score_row w ref ics r)
     = (rates_df r, offensive_component w r, defensive_component w r,
        offensive_component w r + defensive_component w r)"
  unfolding components_def score_row_sel ..

lemma components_cong:
  assumes "\<forall>c\<in>set (''minutes'' # rate_cols @ pct_cols). num r c = num r' c"
  shows "components (score_row w ref ics r) = components (score_row w ref' ics' r')"
proof -
  have "scores (score_row w ref ics r) = scores (score_row w ref ics r')"
    by (rule score_cong[OF assms])
  then have "rates_df r = rates_df r' \<and> offensive_component w r = offensive_component w r'
      \<and> defensive_component w r = defensive_component w r'"
    unfolding scores_def score_row_sel by (simp only: prod.inject)
  then show ?thesis
    unfolding components_score_row by (simp only:)
qed

lemma components_ident [simp]: "components (t\<lparr>ident := i\<rparr>) = components t"
  by (simp add: components_def)

lemma components_group_out:
  "components (group_out w df gc ref k) = components (score_row w ref [] (rep_of df gc k))"
  by (simp add: group_out_def)

lemma rep_of_isolated:
  assumes "set required \<subseteq> set (columns df)"
  shows "\<forall>c\<in>set (''minutes'' # rate_cols @ pct_cols).
      num (rep_of df gc k) c = num (rep_of (df\<lparr>rows := group_rows gc (rows df) k\<rparr>) gc k) c"
proof
  fix c assume "c \<in> set (''minutes'' # rate_cols @ pct_cols)"
  then consider "c \<in> set (''minutes'' # rate_cols)" | "c \<in> set pct_cols" by auto
  then show "num (rep_of df gc k) c = num (rep_of (df\<lparr>rows := group_rows gc (rows df) k\<rparr>) gc k) c"
  proof cases
    case 1
    have v': "set required \<subseteq> set (columns (df\<lparr>rows := group_rows gc (rows df) k\<rparr>))"
      using assms by simp
    show ?thesis
      unfolding num_rep_of_sum[OF assms 1] num_rep_of_sum[OF v' 1]
      by (simp add: group_rows_idem)
  next
    case 2
    show ?thesis
      unfolding num_rep_of_pct[OF 2] by (simp add: group_rows_idem)
  qed
qed

lemma group_key_merge_names:
  assumes "''player_name'' \<notin> set gc"
  shows "map (group_key_of gc) (merge_names gc' rs xs) = map (group_key_of gc) xs"
proof -
  have a: "flat_lookup (i @ [(''player_name'', x)]) c = flat_lookup i c" if "c \<in> set gc"
    for i :: "(string \<times> string option) list" and c x
    using that assms by (auto simp: flat_lookup_def map_add_def split: option.splits)
  have "group_key_of gc (t\<lparr>ident := ident t @ [(''player_name'', x)]\<rparr>) = group_key_of gc t"
    for t x
    unfolding group_key_of_def by (simp add: a cong: map_cong)
  then show ?thesis
    by (simp add: merge_names_def comp_def)
qed

lemma components_merge_names [simp]:
  "map components (merge_names gc rs xs) = map components xs"
  by (simp add: merge_names_def comp_def)

lemma keyed_add_pele_100:
  "map (group_key_of gc) (add_pele_100 xs) = map (group_key_of gc) xs"
  "map components (add_pele_100 xs) = map components xs"
  by (rule nth_equalityI; simp add: add_pele_100_nth group_key_of_def components_def)+

end
